theory Spec2Isabelle
  imports Main "HOL-Library.AList"
begin

section \<open>Python exceptions\<close>

text \<open>
  The exceptions that the modelled code of \<^verbatim>\<open>gs_pypi/pypi_db.py\<close> can raise.
  \<open>DownloadingError\<close> is the one exception class the worker's retry loop catches;
  the others are raised by list indexing, dictionary lookup, attribute access and
  operations on \<open>None\<close>.
\<close>

datatype py_error =
    DownloadingError string
  | IndexError
  | KeyError
  | TypeError
  | AttributeError
  | UnboundLocalError
  | IOError

section \<open>The record normalizer: \<open>PypiDBGenerator.process_data\<close>\<close>

subsection \<open>Data\<close>

text \<open>
  One dictionary of \<open>data["files"]\<close>, as \<open>parse_package_page\<close> builds it. The url and
  the md5 come from \<open>str.split\<close> and are strings; the other four are the \<open>.string\<close> of a
  table cell, which is \<open>None\<close> when the cell does not hold exactly one string.
\<close>

record file_record =
  f_url :: string
  f_md5 :: string
  f_type :: "string option"
  f_pyversion :: "string option"
  f_uploaded :: "string option"
  f_size :: "string option"

text \<open>
  \<open>data["info"]\<close>. The parser stores a dictionary of category groups under the key
  \<open>"Categories"\<close> and under no other key, and a string or \<open>None\<close> under every other
  key. The two kinds of entry are kept apart: \<open>scalars\<close> is the dictionary restricted to
  the keys other than \<open>"Categories"\<close>, \<open>categories\<close> is the value under \<open>"Categories"\<close>
  (\<open>None\<close> when the key is absent). Dictionaries are association lists with unique
  keys, in insertion order.
\<close>

record info_block =
  scalars :: "(string \<times> string option) list"
  categories :: "(string \<times> string list) list option"

record package_detail =
  files :: "file_record list"
  info :: info_block

definition empty_info :: info_block where
  "empty_info = \<lparr>scalars = [], categories = None\<rparr>"

definition empty_detail :: package_detail where
  "empty_detail = \<lparr>files = [], info = empty_info\<rparr>"

text \<open>Python's truth value of \<open>data["info"]\<close>: a dictionary is true when it has a key.\<close>

definition info_nonempty :: "info_block \<Rightarrow> bool" where
  "info_nonempty i = (\<not> (scalars i = [] \<and> categories i = None))"

text \<open>Python's truth value of a value that is a string or \<open>None\<close>.\<close>

fun truthy :: "string option \<Rightarrow> bool" where
  "truthy None = False"
| "truthy (Some s) = (s \<noteq> [])"

text \<open>\<open>Package(category, name, version)\<close> and the \<open>ebuild_data\<close> dictionary.\<close>

record package_id =
  p_category :: string
  p_name :: string
  p_version :: string

record ebuild_data =
  realname :: string
  realversion :: string
  description :: string
  longdescription :: string
  homepage :: "string option"
  license :: string
  source_uri :: string
  md5 :: string
  python_compat :: string

subsection \<open>Character filters\<close>

definition is_lower :: "char \<Rightarrow> bool" where
  "is_lower c = (of_char c \<ge> (97::nat) \<and> of_char c \<le> (122::nat))"

definition is_upper :: "char \<Rightarrow> bool" where
  "is_upper c = (of_char c \<ge> (65::nat) \<and> of_char c \<le> (90::nat))"

definition is_digit :: "char \<Rightarrow> bool" where
  "is_digit c = (of_char c \<ge> (48::nat) \<and> of_char c \<le> (57::nat))"

definition allowed_ords_pkg :: "char \<Rightarrow> bool" where
  "allowed_ords_pkg c = (is_lower c \<or> is_upper c \<or> is_digit c \<or> c \<in> set ''+_-'')"

definition allowed_ords_desc :: "char \<Rightarrow> bool" where
  "allowed_ords_desc c =
     (is_lower c \<or> is_upper c \<or> is_digit c \<or> c \<in> set ''+_- .()[]{},'')"

subsection \<open>The pseudo-version\<close>

text \<open>
  \<open>"%04d%02d%02d" % (now.year, now.month, now.day)\<close>: each number in decimal, padded with
  zeros on the left to the given width (a longer number is not cut). The fields of a
  \<open>datetime\<close> are not negative.
\<close>

definition digit_char :: "nat \<Rightarrow> char" where
  "digit_char d = char_of (48 + d)"

function decimal :: "nat \<Rightarrow> string" where
  "decimal n = (if n < 10 then [digit_char n] else decimal (n div 10) @ [digit_char (n mod 10)])"
  by pat_completeness auto
termination
  by (relation "measure (\<lambda>n. n)") auto

declare decimal.simps [simp del]

definition zero_pad :: "nat \<Rightarrow> nat \<Rightarrow> string" where
  "zero_pad w n = replicate (w - length (decimal n)) (CHR ''0'') @ decimal n"

definition pseudoversion :: "nat \<Rightarrow> nat \<Rightarrow> nat \<Rightarrow> string" where
  "pseudoversion year month day = zero_pad 4 year @ zero_pad 2 month @ zero_pad 2 day"

subsection \<open>Regular expressions, as \<open>re.match\<close> reads them\<close>

text \<open>
  The fragment of Python's regular expressions that the version grammar uses: a
  character class, sequence, alternative, \<open>+\<close>, \<open>?\<close>, and the anchors \<open>^\<close> and \<open>$\<close>.
  \<open>ends r s i\<close> lists the positions at which a match of \<open>r\<close> that starts at position \<open>i\<close>
  of \<open>s\<close> can end. \<open>^\<close> matches at position 0 only (no \<open>MULTILINE\<close> flag); \<open>$\<close> matches at
  the end of the string and just before a newline that is the last character.
  \<open>re.match\<close> succeeds when some match starts at position 0.
\<close>

datatype rexp =
    Cls "char list"
  | Bol
  | Eol
  | Seq rexp rexp
  | Alt rexp rexp
  | Plus rexp
  | Opt rexp

fun repeat :: "(nat \<Rightarrow> nat list) \<Rightarrow> nat \<Rightarrow> nat \<Rightarrow> nat list" where
  "repeat f 0 i = f i"
| "repeat f (Suc n) i =
     (let js = f i in js @ concat (map (repeat f n) (filter (\<lambda>j. i < j) js)))"

primrec ends :: "rexp \<Rightarrow> string \<Rightarrow> nat \<Rightarrow> nat list" where
  "ends (Cls cs) s i = (if i < length s \<and> s ! i \<in> set cs then [Suc i] else [])"
| "ends Bol s i = (if i = 0 then [i] else [])"
| "ends Eol s i =
     (if i = length s \<or> (Suc i = length s \<and> s ! i = CHR 0x0A) then [i] else [])"
| "ends (Seq r1 r2) s i = concat (map (ends r2 s) (ends r1 s i))"
| "ends (Alt r1 r2) s i = ends r1 s i @ ends r2 s i"
| "ends (Plus r) s i = repeat (ends r s) (length s) i"
| "ends (Opt r) s i = ends r s i @ [i]"

definition re_match :: "rexp \<Rightarrow> string \<Rightarrow> bool" where
  "re_match r s = (ends r s 0 \<noteq> [])"

definition digits :: "char list" where
  "digits = ''0123456789''"

definition lowers :: "char list" where
  "lowers = ''abcdefghijklmnopqrstuvwxyz''"

text \<open>\<open>(^[0-9]+[a-z]?$)|(^[0-9][0-9\.]+[0-9][a-z]?$)\<close>\<close>

definition version_re :: rexp where
  "version_re =
     Alt (Seq Bol (Seq (Plus (Cls digits)) (Seq (Opt (Cls lowers)) Eol)))
         (Seq Bol (Seq (Cls digits) (Seq (Plus (Cls (digits @ ''.'')))
            (Seq (Cls digits) (Seq (Opt (Cls lowers)) Eol)))))"

subsection \<open>Runtime tags and the compatibility expression\<close>

text \<open>The \<open>if\<close>/\<open>elif\<close> chain over one entry of \<open>categories['Programming Language']\<close>.\<close>

definition tags_of_entry :: "string \<Rightarrow> string list" where
  "tags_of_entry e =
     (if e = ''2'' then [''2_7'']
      else if e = ''3'' then [''3_3'', ''3_4'', ''3_5'']
      else if e = ''2.6'' then [''2_7'']
      else if e = ''2.7'' then [''2_7'']
      else if e = ''3.2'' then [''3_3'']
      else if e = ''3.3'' then [''3_3'']
      else if e = ''3.4'' then [''3_4'']
      else if e = ''3.5'' then [''3_5'']
      else [])"

text \<open>The loop \<open>for entry in categories['Programming Language']\<close>, from \<open>py_versions = []\<close>.\<close>

definition py_versions_of :: "string list \<Rightarrow> string list" where
  "py_versions_of entries = foldl (\<lambda>acc e. acc @ tags_of_entry e) [] entries"

definition default_py_versions :: "string list" where
  "default_py_versions = [''2_7'', ''3_3'', ''3_4'', ''3_5'']"

text \<open>\<open>if not py_versions: py_versions = ['2_7', '3_3', '3_4', '3_5']\<close>\<close>

definition with_default :: "string list \<Rightarrow> string list" where
  "with_default vs = (if vs = [] then default_py_versions else vs)"

text \<open>
  The rendering of \<open>python_compat\<close>. \<open>py_versions[0]\<close> raises \<open>IndexError\<close> on an empty
  list.
\<close>

fun render_compat :: "string list \<Rightarrow> py_error + string" where
  "render_compat [] = Inl IndexError"
| "render_compat [v] = Inr (''( python'' @ v @ '' )'')"
| "render_compat (v # vs) =
     Inr (foldl (\<lambda>acc ver. acc @ '','' @ ver) (''( python{'' @ v) vs @ ''} )'')"

subsection \<open>One iteration of the loop over the index\<close>

text \<open>\<open>"\n    Source\n  "\<close>, the release type of a source file as the page has it.\<close>

definition source_marker :: string where
  "source_marker = CHR 0x0A # ''    Source'' @ CHR 0x0A # ''  ''"

text \<open>
  The loop over \<open>pkg_data["files"]\<close>: the url and md5 of the first file whose type is the
  source marker, and two empty strings when there is none.
\<close>

fun first_source :: "file_record list \<Rightarrow> string \<times> string" where
  "first_source [] = ([], [])"
| "first_source (f # fs) =
     (if f_type f = Some source_marker then (f_url f, f_md5 f) else first_source fs)"

text \<open>
  \<open>download_url\<close>: \<open>""\<close>, replaced by the value under \<open>"Download URL:"\<close> when \<open>info\<close> is
  true and has the key.
\<close>

definition download_url_of :: "info_block \<Rightarrow> string option" where
  "download_url_of i =
     (if info_nonempty i then
        (case map_of (scalars i) ''Download URL:'' of None \<Rightarrow> Some [] | Some v \<Rightarrow> v)
      else Some [])"

text \<open>
  \<open>source_uri\<close>: the download URL when it is true, else the url of the first source file.
\<close>

definition select_source_uri :: "package_detail \<Rightarrow> string" where
  "select_source_uri d =
     (let download_url = download_url_of (info d) in
      if truthy download_url then the download_url else fst (first_source (files d)))"

text \<open>\<open>homepage\<close>, in the same way from the key \<open>"Home Page:"\<close>.\<close>

definition homepage_of :: "info_block \<Rightarrow> string option" where
  "homepage_of i =
     (if info_nonempty i then
        (case map_of (scalars i) ''Home Page:'' of None \<Rightarrow> Some [] | Some v \<Rightarrow> v)
      else Some [])"

text \<open>
  The groups that the two lookups below can see: those of \<open>info["Categories"]\<close> when
  \<open>info\<close> is true and has the key, and none otherwise (both lookups stand inside
  \<open>if info:\<close> and \<open>if "Categories" in info:\<close>).
\<close>

definition categories_of :: "info_block \<Rightarrow> (string \<times> string list) list" where
  "categories_of i =
     (if info_nonempty i then (case categories i of None \<Rightarrow> [] | Some c \<Rightarrow> c) else [])"

definition raw_py_versions :: "info_block \<Rightarrow> string list" where
  "raw_py_versions i =
     (case map_of (categories_of i) ''Programming Language'' of
        None \<Rightarrow> []
      | Some entries \<Rightarrow> py_versions_of entries)"

text \<open>
  \<open>pkg_license\<close> before the lookup: \<open>categories["License"][-1]\<close> when the group is there,
  which raises \<open>IndexError\<close> on an empty list; else \<open>""\<close>.
\<close>

definition raw_license :: "info_block \<Rightarrow> py_error + string" where
  "raw_license i =
     (case map_of (categories_of i) ''License'' of
        None \<Rightarrow> Inr []
      | Some ls \<Rightarrow> (if ls = [] then Inl IndexError else Inr (last ls)))"

text \<open>
  What one iteration does: \<open>continue\<close> before \<open>add_package\<close>, a call of \<open>add_package\<close>, or an
  exception that leaves the loop and \<open>process_data\<close>.
\<close>

datatype step = Skipped | Emitted package_id ebuild_data | Raised py_error

text \<open>
  One iteration, for the index item \<open>((package, version), description)\<close>. \<open>convert\<close> is
  \<open>self.convert([common_config, config], "licenses", _)\<close>, the license lookup of the base
  class; \<open>pv\<close> is the pseudo-version computed before the loop; \<open>packages\<close> is
  \<open>data["packages"]\<close> without its \<open>"index"\<close> key. The first component of the result lists
  the arguments of the calls of \<open>convert\<close>, in order.
\<close>

definition process_entry ::
  "(string \<Rightarrow> string) \<Rightarrow> string \<Rightarrow> (string \<times> package_detail) list \<Rightarrow>
   (string \<times> string) \<times> string \<Rightarrow> string list \<times> step" where
  "process_entry convert pv packages item =
     (let package = fst (fst item); version = snd (fst item); descr = snd item;
          pkg = package @ ''-'' @ version in
      case map_of packages pkg of
        None \<Rightarrow> ([], Skipped)
      | Some pkg_data \<Rightarrow>
          if files pkg_data = [] \<and> \<not> info_nonempty (info pkg_data) then ([], Skipped)
          else
            let source = select_source_uri pkg_data;
                file_md5 = snd (first_source (files pkg_data)) in
            if source = [] then ([], Skipped)
            else
              (case raw_license (info pkg_data) of
                 Inl e \<Rightarrow> ([], Raised e)
               | Inr raw \<Rightarrow>
                   (case render_compat (with_default (raw_py_versions (info pkg_data))) of
                      Inl e \<Rightarrow> ([raw], Raised e)
                    | Inr rendered \<Rightarrow>
                        ([raw],
                         Emitted
                           \<lparr>p_category = ''dev-python'',
                            p_name = filter allowed_ords_pkg package,
                            p_version = (if re_match version_re version then version else pv)\<rparr>
                           \<lparr>realname = package,
                            realversion = version,
                            description = filter allowed_ords_desc descr,
                            longdescription = filter allowed_ords_desc descr,
                            homepage = homepage_of (info pkg_data),
                            license = convert raw,
                            source_uri = source,
                            md5 = file_md5,
                            python_compat = rendered\<rparr>))))"

text \<open>
  The loop of \<open>process_data\<close> over \<open>data["packages"]["index"].items()\<close>: the packages
  added, the arguments of the calls of \<open>convert\<close>, and the exception that ended the loop,
  if one did.
\<close>

record normalizer_state =
  added :: "(package_id \<times> ebuild_data) list"
  convert_calls :: "string list"
  raised :: "py_error option"

fun process_items ::
  "(string \<Rightarrow> string) \<Rightarrow> string \<Rightarrow> (string \<times> package_detail) list \<Rightarrow>
   ((string \<times> string) \<times> string) list \<Rightarrow> normalizer_state \<Rightarrow> normalizer_state" where
  "process_items convert pv packages [] st = st"
| "process_items convert pv packages (item # items) st =
     (case process_entry convert pv packages item of
        (calls, Skipped) \<Rightarrow>
          process_items convert pv packages items
            (st\<lparr>convert_calls := convert_calls st @ calls\<rparr>)
      | (calls, Emitted p e) \<Rightarrow>
          process_items convert pv packages items
            (st\<lparr>added := added st @ [(p, e)], convert_calls := convert_calls st @ calls\<rparr>)
      | (calls, Raised err) \<Rightarrow>
          st\<lparr>convert_calls := convert_calls st @ calls, raised := Some err\<rparr>)"

definition process_data ::
  "(string \<Rightarrow> string) \<Rightarrow> nat \<times> nat \<times> nat \<Rightarrow> (string \<times> package_detail) list \<Rightarrow>
   ((string \<times> string) \<times> string) list \<Rightarrow> normalizer_state" where
  "process_data convert now packages index =
     (case now of (year, month, day) \<Rightarrow>
        process_items convert (pseudoversion year month day) packages index
          \<lparr>added = [], convert_calls = [], raised = None\<rparr>)"

subsection \<open>Example inputs\<close>

text \<open>
  A detail page with a wheel and a source file, a home page and two category groups; the
  same files with a download URL and no category; a run over an index of two entries
  that both point at the first page; and a page with a source file and no info.
\<close>

definition example_wheel :: file_record where
  "example_wheel =
     \<lparr>f_url = ''https://pypi.example/packages/foo-1.0-py2-none-any.whl'',
      f_md5 = ''aa11'',
      f_type = Some (CHR 0x0A # ''    Python Wheel'' @ CHR 0x0A # ''  ''),
      f_pyversion = Some ''2.7'', f_uploaded = Some ''2015-03-07'', f_size = Some ''10KB''\<rparr>"

definition example_sdist :: file_record where
  "example_sdist =
     \<lparr>f_url = ''https://pypi.example/packages/foo-1.0.tar.gz'',
      f_md5 = ''bb22'',
      f_type = Some source_marker,
      f_pyversion = None, f_uploaded = Some ''2015-03-07'', f_size = Some ''12KB''\<rparr>"

definition example_detail :: package_detail where
  "example_detail =
     \<lparr>files = [example_wheel, example_sdist],
      info = \<lparr>scalars = [(''Home Page:'', Some ''http://foo.example/'')],
              categories = Some [(''Programming Language'', [''2'', ''2.7'']),
                                 (''License'', [''OSI Approved'', ''MIT License''])]\<rparr>\<rparr>"

definition example_download :: package_detail where
  "example_download =
     \<lparr>files = [example_wheel, example_sdist],
      info = \<lparr>scalars = [(''Home Page:'', Some ''http://foo.example/''),
                         (''Download URL:'', Some ''http://dl.example/foo-1.0.zip'')],
              categories = None\<rparr>\<rparr>"

definition example_packages :: "(string \<times> package_detail) list" where
  "example_packages = [(''foo-1.2.3'', example_detail), (''bar-1.0-beta'', example_detail)]"

definition example_index :: "((string \<times> string) \<times> string) list" where
  "example_index = [((''foo'', ''1.2.3''), []), ((''bar'', ''1.0-beta''), [])]"

definition example_no_info :: package_detail where
  "example_no_info = \<lparr>files = [example_sdist], info = empty_info\<rparr>"

section \<open>The worker: \<open>Worker.run\<close>\<close>

text \<open>
  What a worker has done so far: the number of calls of \<open>task_queue.task_done()\<close>, the
  values put on the result queue in order, the lines printed, and the local variable
  \<open>data\<close> of \<open>run\<close> (unbound until the first successful download). The loaded data is
  the dictionary \<open>load_remote_file\<close> returns, from file names to parsed pages.
\<close>

record 'v worker_state =
  tasks_done :: nat
  results :: "(string \<times> 'v) list list"
  printed :: "string list"
  local_data :: "(string \<times> 'v) list option"

text \<open>
  The inner \<open>while True\<close> loop for one job. \<open>load k\<close> is what the \<open>k\<close>-th call of
  \<open>load_remote_file(**uri)\<close> for this job does: it returns a dictionary or raises.
  \<open>attempts\<close> is the counter before the iteration. A \<open>DownloadingError\<close> is printed;
  below 100 attempts the loop goes on, at 100 the job is marked done and the loop is
  left; were the counter above 100, neither branch of the handler would apply and the
  statements after the \<open>try\<close> would run with the old value of \<open>data\<close>. Any other exception
  leaves \<open>run\<close>. The result is the counter and the state at the end of the loop, or the
  exception and the state when it was raised.
\<close>

function attempt_loop ::
  "(nat \<Rightarrow> py_error + (string \<times> 'v) list) \<Rightarrow> nat \<Rightarrow> 'v worker_state \<Rightarrow>
   (py_error \<times> 'v worker_state) + (nat \<times> 'v worker_state)" where
  "attempt_loop load attempts st =
     (case load (attempts + 1) of
        Inr d \<Rightarrow>
          Inr (attempts + 1,
               st\<lparr>tasks_done := tasks_done st + 1,
                  results := results st @ [d],
                  printed := printed st @ map fst d,
                  local_data := Some d\<rparr>)
      | Inl (DownloadingError msg) \<Rightarrow>
          (if attempts + 1 < 100 then
             attempt_loop load (attempts + 1) (st\<lparr>printed := printed st @ [msg]\<rparr>)
           else if attempts + 1 = 100 then
             Inr (attempts + 1,
                  st\<lparr>tasks_done := tasks_done st + 1, printed := printed st @ [msg]\<rparr>)
           else
             (case local_data st of
                None \<Rightarrow>
                  Inl (UnboundLocalError,
                       st\<lparr>tasks_done := tasks_done st + 1, printed := printed st @ [msg]\<rparr>)
              | Some d \<Rightarrow>
                  Inr (attempts + 1,
                       st\<lparr>tasks_done := tasks_done st + 1,
                          results := results st @ [d],
                          printed := printed st @ [msg] @ map fst d\<rparr>)))
      | Inl e \<Rightarrow> Inl (e, st))"
  by pat_completeness auto
termination
  by (relation "measure (\<lambda>(load, attempts, st). 100 - attempts)") auto

declare attempt_loop.simps [simp del]

text \<open>
  The outer loop, over the items this worker gets from the task queue: a job, or \<open>None\<close>,
  the sentinel. \<open>load j k\<close> is the \<open>k\<close>-th download of job \<open>j\<close>. On the sentinel the worker
  prints, marks it done and leaves; with nothing left to get, \<open>task_queue.get()\<close> blocks.
\<close>

datatype 'v run_end =
    Exited "'v worker_state"
  | Blocked "'v worker_state"
  | Crashed py_error "'v worker_state"

fun run ::
  "string \<Rightarrow> ('j \<Rightarrow> nat \<Rightarrow> py_error + (string \<times> 'v) list) \<Rightarrow> 'j option list \<Rightarrow>
   'v worker_state \<Rightarrow> 'v run_end" where
  "run proc_name load [] st = Blocked st"
| "run proc_name load (None # queue) st =
     Exited (st\<lparr>tasks_done := tasks_done st + 1,
                printed := printed st @ [proc_name @ '': Exiting'']\<rparr>)"
| "run proc_name load (Some uri # queue) st =
     (case attempt_loop (load uri) 0 st of
        Inl (e, st') \<Rightarrow> Crashed e st'
      | Inr (attempts, st') \<Rightarrow> run proc_name load queue st')"

text \<open>
  Example downloads: one that raises \<open>DownloadingError\<close> at every attempt, one that
  succeeds at the third attempt; and a worker that has done nothing yet.
\<close>

definition always_failing :: "nat \<Rightarrow> py_error + (string \<times> nat) list" where
  "always_failing k = Inl (DownloadingError ''wget failed: http://pypi.example/pypi/foo/1.0'')"

definition third_time_lucky :: "nat \<Rightarrow> py_error + (string \<times> nat) list" where
  "third_time_lucky k =
     (if k < 3 then Inl (DownloadingError ''wget failed: http://pypi.example/pypi/foo/1.0'')
      else Inr [(''foo-1.0'', 7)])"

definition fresh_worker :: "nat worker_state" where
  "fresh_worker = \<lparr>tasks_done = 0, results = [], printed = [], local_data = None\<rparr>"

section \<open>The archive and text normalizer: \<open>load_remote_file\<close>\<close>

subsection \<open>Paths\<close>

text \<open>
  The first argument of \<open>os.path.join\<close> in the two calls of \<open>load_remote_file\<close>: a string
  (\<open>download_dir.name\<close>), or a \<open>TemporaryDirectory\<close> object, given here with its name
  (\<open>unpack_dir\<close>, passed without \<open>.name\<close>). \<open>posixpath.join\<close> calls \<open>endswith\<close> on its first
  argument; a \<open>TemporaryDirectory\<close> object has no such attribute and the call raises.
\<close>

datatype path_arg = PathStr string | TmpDirObject string

fun os_path_join :: "path_arg \<Rightarrow> string \<Rightarrow> py_error + string" where
  "os_path_join (PathStr a) b =
     Inr (if b \<noteq> [] \<and> hd b = CHR ''/'' then b
          else if a = [] \<or> last a = CHR ''/'' then a @ b
          else a @ ''/'' @ b)"
| "os_path_join (TmpDirObject n) b = Inl AttributeError"

definition basename :: "string \<Rightarrow> string" where
  "basename p = rev (takeWhile (\<lambda>c. c \<noteq> CHR ''/'') (rev p))"

text \<open>
  \<open>os.path.splitext\<close>: the extension starts at the last dot of the last path component,
  unless only dots stand before it in that component.
\<close>

definition splitext :: "string \<Rightarrow> string \<times> string" where
  "splitext p =
     (let b = basename p;
          e = rev (takeWhile (\<lambda>c. c \<noteq> CHR ''.'') (rev b));
          r = take (length b - length e - 1) b
      in if CHR ''.'' \<in> set b \<and> \<not> list_all (\<lambda>c. c = CHR ''.'') r
         then (take (length p - length e - 1) p, CHR ''.'' # e)
         else (p, []))"

text \<open>
  \<open>glob.glob(dir + "/*")\<close> over the names in a directory: the names that do not start
  with a dot, each joined to the directory.
\<close>

definition glob_star :: "string \<Rightarrow> (string \<times> 'a) list \<Rightarrow> (string \<times> 'a) list" where
  "glob_star pat entries =
     map (\<lambda>(n, x). (take (length pat - 1) pat @ n, x))
       (filter (\<lambda>(n, x). n \<noteq> [] \<and> hd n \<noteq> CHR ''.'') entries)"

subsection \<open>The loader\<close>

text \<open>
  A file of the download directory: a tar archive (\<open>tarfile.is_tarfile\<close> is true), given
  by the names and contents that \<open>extractall\<close> writes at the top of the unpack directory,
  or any other file, given by its content.
\<close>

datatype 'c payload = TarArchive "(string \<times> 'c) list" | PlainFile 'c

text \<open>
  \<open>_call_parser\<close> followed by \<open>loaded_data.update\<close>: the parsed content is stored under the
  base name of the file.
\<close>

definition call_parser ::
  "string \<Rightarrow> ('c \<Rightarrow> 'v) \<Rightarrow> 'c \<Rightarrow> (string \<times> 'v) list \<Rightarrow> (string \<times> 'v) list" where
  "call_parser f_name parser content loaded_data =
     AList.update (basename f_name) (parser content) loaded_data"

text \<open>
  The body of the loop over the files of the download directory. \<open>unpack_name\<close> is the
  name of the second temporary directory. \<open>xz\<close> is \<open>os.system\<close> on a command line, for a
  file with the given content: the command line is \<open>"xz -d "\<close> followed by the name of
  the file as it is, unquoted, so what the shell runs depends on the name. The result is
  the exit status and the content found afterwards under the name without the
  extension, \<open>None\<close> when there is no such file, in which case \<open>open\<close> raises in
  \<open>_call_parser\<close>.
\<close>

definition load_one ::
  "string \<Rightarrow> string \<Rightarrow> (string \<Rightarrow> 'c \<Rightarrow> nat \<times> 'c option) \<Rightarrow> ('c \<Rightarrow> 'v) \<Rightarrow>
   string \<times> 'c payload \<Rightarrow> (string \<times> 'v) list \<Rightarrow> py_error + (string \<times> 'v) list" where
  "load_one uri unpack_name xz parser file loaded_data =
     (case file of
        (f_name, TarArchive members) \<Rightarrow>
          (case os_path_join (TmpDirObject unpack_name) ''*'' of
             Inl e \<Rightarrow> Inl e
           | Inr pat \<Rightarrow>
               Inr (foldl (\<lambda>acc (uf_name, c). call_parser uf_name parser c acc) loaded_data
                      (glob_star pat members)))
      | (f_name, PlainFile c) \<Rightarrow>
          (case splitext f_name of
             (name, extention) \<Rightarrow>
               if extention \<in> set [''.xz'', ''.lzma''] then
                 (case xz (''xz -d '' @ f_name) c of
                    (status, after) \<Rightarrow>
                      if status \<noteq> 0 then
                        Inl (DownloadingError (''xz failed: '' @ f_name @ '' from '' @ uri))
                      else
                        (case after of
                           None \<Rightarrow> Inl IOError
                         | Some c' \<Rightarrow> Inr (call_parser name parser c' loaded_data)))
               else Inr (call_parser f_name parser c loaded_data)))"

fun load_all ::
  "string \<Rightarrow> string \<Rightarrow> (string \<Rightarrow> 'c \<Rightarrow> nat \<times> 'c option) \<Rightarrow> ('c \<Rightarrow> 'v) \<Rightarrow>
   (string \<times> 'c payload) list \<Rightarrow> (string \<times> 'v) list \<Rightarrow> py_error + (string \<times> 'v) list" where
  "load_all uri unpack_name xz parser [] loaded_data = Inr loaded_data"
| "load_all uri unpack_name xz parser (file # rest) loaded_data =
     (case load_one uri unpack_name xz parser file loaded_data of
        Inl e \<Rightarrow> Inl e
      | Inr loaded_data' \<Rightarrow> load_all uri unpack_name xz parser rest loaded_data')"

text \<open>
  \<open>load_remote_file\<close>. \<open>retrieve\<close> is what \<open>url.retrieve\<close> does: it raises, or it returns a
  value with the given truth value. \<open>written\<close> lists the names and files that it leaves in
  the download directory \<open>download_name\<close>.
\<close>

definition load_remote_file ::
  "string \<Rightarrow> string \<Rightarrow> string \<Rightarrow> (py_error + bool) \<Rightarrow> (string \<times> 'c payload) list \<Rightarrow>
   (string \<Rightarrow> 'c \<Rightarrow> nat \<times> 'c option) \<Rightarrow> ('c \<Rightarrow> 'v) \<Rightarrow> py_error + (string \<times> 'v) list" where
  "load_remote_file uri download_name unpack_name retrieve written xz parser =
     (case retrieve of
        Inl e \<Rightarrow> Inl e
      | Inr ok \<Rightarrow>
          if \<not> ok then Inl (DownloadingError (''wget failed: '' @ uri))
          else
            (case os_path_join (PathStr download_name) ''*'' of
               Inl e \<Rightarrow> Inl e
             | Inr pat \<Rightarrow> load_all uri unpack_name xz parser (glob_star pat written) []))"

section \<open>The detail-page parser: \<open>PypiDBGenerator.parse_package_page\<close>\<close>

subsection \<open>The document tree and the operations of the HTML library\<close>

text \<open>
  The tree that \<open>bs4.BeautifulSoup(data_f.read(), "lxml")\<close> builds: a string
  (\<open>NavigableString\<close>), or a tag with its name, the values of its \<open>class\<close> attribute, its
  other attributes and its contents. The root of a document is a tag as well. The
  constructor belongs to the library; the walk is modelled over the tree it returns.
\<close>

datatype node =
    Text string
  | Tag string "string list" "(string \<times> string) list" "node list"

text \<open>All nodes below a node, in document order.\<close>

fun descendants :: "node \<Rightarrow> node list" where
  "descendants (Text s) = []"
| "descendants (Tag n cl at cs) = concat (map (\<lambda>c. c # descendants c) cs)"

fun is_tag :: "string \<Rightarrow> node \<Rightarrow> bool" where
  "is_tag name (Text s) = False"
| "is_tag name (Tag n cl at cs) = (n = name)"

fun has_class :: "string \<Rightarrow> node \<Rightarrow> bool" where
  "has_class c (Text s) = False"
| "has_class c (Tag n cl at cs) = (c \<in> set cl)"

text \<open>\<open>tag(name)\<close>, that is \<open>tag.find_all(name)\<close>, and \<open>tag(name, class_ = c)\<close>.\<close>

definition find_all :: "string \<Rightarrow> node \<Rightarrow> node list" where
  "find_all name root = filter (is_tag name) (descendants root)"

definition find_all_class :: "string \<Rightarrow> string \<Rightarrow> node \<Rightarrow> node list" where
  "find_all_class name c root =
     filter (\<lambda>x. is_tag name x \<and> has_class c x) (descendants root)"

text \<open>
  \<open>tag.string\<close>: the string of a tag whose only child is a string, the \<open>.string\<close> of the
  only child when that is a tag, and \<open>None\<close> for a tag with no child or several.
\<close>

fun node_string :: "node \<Rightarrow> string option" where
  "node_string (Text s) = Some s"
| "node_string (Tag n cl at []) = None"
| "node_string (Tag n cl at [c]) = node_string c"
| "node_string (Tag n cl at (c # d # cs)) = None"

fun node_contents :: "node \<Rightarrow> node list" where
  "node_contents (Text s) = []"
| "node_contents (Tag n cl at cs) = cs"

text \<open>\<open>tag[key]\<close>: \<open>KeyError\<close> when the tag has no such attribute.\<close>

fun get_attr :: "node \<Rightarrow> string \<Rightarrow> py_error + string" where
  "get_attr (Text s) key = Inl TypeError"
| "get_attr (Tag n cl at cs) key =
     (case map_of at key of None \<Rightarrow> Inl KeyError | Some v \<Rightarrow> Inr v)"

text \<open>
  \<open>tag.decompose()\<close> on the last node, in document order, that satisfies \<open>P\<close> among the
  nodes of a forest: the node leaves the contents of its parent. The last such node has
  no such node below it.
\<close>

fun remove_last_in :: "(node \<Rightarrow> bool) \<Rightarrow> node list \<Rightarrow> node list" where
  "remove_last_in P [] = []"
| "remove_last_in P (Text s # cs) =
     (if filter P (concat (map (\<lambda>c. c # descendants c) cs)) \<noteq> [] then
        Text s # remove_last_in P cs
      else if P (Text s) then cs else Text s # cs)"
| "remove_last_in P (Tag n cl at ks # cs) =
     (if filter P (concat (map (\<lambda>c. c # descendants c) cs)) \<noteq> [] then
        Tag n cl at ks # remove_last_in P cs
      else if filter P (concat (map (\<lambda>c. c # descendants c) ks)) \<noteq> [] then
        Tag n cl at (remove_last_in P ks) # cs
      else if P (Tag n cl at ks) then cs else Tag n cl at ks # cs)"

fun decompose_last :: "(node \<Rightarrow> bool) \<Rightarrow> node \<Rightarrow> node" where
  "decompose_last P (Text s) = Text s"
| "decompose_last P (Tag n cl at cs) = Tag n cl at (remove_last_in P cs)"

subsection \<open>Python lists and strings\<close>

text \<open>\<open>xs[i]\<close> for \<open>i \<ge> 0\<close>: \<open>IndexError\<close> out of range.\<close>

definition item :: "'a list \<Rightarrow> nat \<Rightarrow> py_error + 'a" where
  "item xs i = (if i < length xs then Inr (xs ! i) else Inl IndexError)"

text \<open>\<open>sub in s\<close> for two strings.\<close>

fun is_substring :: "string \<Rightarrow> string \<Rightarrow> bool" where
  "is_substring sub [] = (sub = [])"
| "is_substring sub (c # cs) = (take (length sub) (c # cs) = sub \<or> is_substring sub cs)"

text \<open>
  \<open>s.split(sep)\<close> for a non-empty separator: \<open>cur\<close> is the piece read so far. The result
  has at least one element.
\<close>

fun split_from :: "string \<Rightarrow> string \<Rightarrow> string \<Rightarrow> string list" where
  "split_from sep cur [] = [cur]"
| "split_from sep cur (c # cs) =
     (if sep \<noteq> [] \<and> take (length sep) (c # cs) = sep then
        cur # split_from sep [] (drop (length sep - 1) cs)
      else split_from sep (cur @ [c]) cs)"

definition py_split :: "string \<Rightarrow> string \<Rightarrow> string list" where
  "py_split sep s = split_from sep [] s"

text \<open>Sequencing of steps that can raise: the first exception ends the sequence.\<close>

definition bind_err :: "'e + 'a \<Rightarrow> ('a \<Rightarrow> 'e + 'b) \<Rightarrow> 'e + 'b" where
  "bind_err m f = (case m of Inl e \<Rightarrow> Inl e | Inr x \<Rightarrow> f x)"

subsection \<open>The file table\<close>

text \<open>
  The body of the loop over the rows, up to \<open>data["files"].append\<close>: \<open>cells\<close> is
  \<open>fields\<close>, that is \<open>entry("td")\<close>. The file and its checksum are the two parts of the \<open>href\<close> of the first
  link of the first cell, split at \<open>#\<close>; the checksum loses its first four characters.
\<close>

definition row_record :: "node list \<Rightarrow> py_error + file_record" where
  "row_record cells =
     bind_err (item cells 0) (\<lambda>td0.
     bind_err (item (find_all ''a'' td0) 0) (\<lambda>a.
     bind_err (get_attr a ''href'') (\<lambda>href.
     bind_err (item (py_split ''#'' href) 0) (\<lambda>file_url.
     bind_err (item (py_split ''#'' href) 1) (\<lambda>frag.
     bind_err (item cells 1) (\<lambda>td1.
     bind_err (item cells 2) (\<lambda>td2.
     bind_err (item cells 3) (\<lambda>td3.
     bind_err (item cells 4) (\<lambda>td4.
       Inr \<lparr>f_url = file_url, f_md5 = drop 4 frag, f_type = node_string td1,
            f_pyversion = node_string td2, f_uploaded = node_string td3,
            f_size = node_string td4\<rparr>)))))))))"

text \<open>
  The loop over \<open>table("tr")[1:-1]\<close>. The list of rows is computed before the loop, and
  each row is decomposed after it has been read, which empties every tag below it. A row
  that stands below the row before it in the list is therefore reached with no contents
  (\<open>dead\<close>), and \<open>entry("td")\<close> is empty for it. An exception comes with the files appended
  so far.
\<close>

fun walk_rows ::
  "node list \<Rightarrow> bool \<Rightarrow> file_record list \<Rightarrow>
   (py_error \<times> file_record list) + file_record list" where
  "walk_rows [] dead acc = Inr acc"
| "walk_rows (entry # rest) dead acc =
     (case row_record (if dead then [] else find_all ''td'' entry) of
        Inl e \<Rightarrow> Inl (e, acc)
      | Inr f \<Rightarrow> walk_rows rest (find_all ''tr'' entry \<noteq> []) (acc @ [f]))"

text \<open>
  The loop over \<open>soup("table", class_ = "list")[-1:]\<close>, the last such table if there is
  one. The result is the list of files and the document as the loop leaves it: without
  the table when its rows were read, unchanged when there is no table or its first
  header cell does not contain \<open>File\<close>.
\<close>

definition parse_files ::
  "node \<Rightarrow> (py_error \<times> file_record list) + (file_record list \<times> node)" where
  "parse_files soup =
     (let tables = find_all_class ''table'' ''list'' soup in
      if tables = [] then Inr ([], soup)
      else
        let table = last tables in
        (case item (find_all ''th'' table) 0 of
           Inl e \<Rightarrow> Inl (e, [])
         | Inr th \<Rightarrow>
             (case node_string th of
                None \<Rightarrow> Inl (TypeError, [])
              | Some s \<Rightarrow>
                  if \<not> is_substring ''File'' s then Inr ([], soup)
                  else
                    (case walk_rows (butlast (drop 1 (find_all ''tr'' table))) False [] of
                       Inl err \<Rightarrow> Inl err
                     | Inr fs \<Rightarrow>
                         Inr (fs,
                              decompose_last
                                (\<lambda>x. is_tag ''table'' x \<and> has_class ''list'' x) soup)))))"

subsection \<open>The info list\<close>

text \<open>
  The loop over the links of a \<open>Categories\<close> item: the text of a link is split at
  \<open>" :: "\<close>; the first piece is the group, the others are appended to the list of the
  group, which starts as those pieces when the group is new. The \<open>.string\<close> of a link can
  be \<open>None\<close>, which has no \<open>split\<close>. An exception comes with the groups stored so far.
\<close>

fun add_categories ::
  "node list \<Rightarrow> (string \<times> string list) list \<Rightarrow>
   (py_error \<times> (string \<times> string list) list) + (string \<times> string list) list" where
  "add_categories [] cats = Inr cats"
| "add_categories (cat_entry # rest) cats =
     (case node_string cat_entry of
        None \<Rightarrow> Inl (AttributeError, cats)
      | Some s \<Rightarrow>
          (case py_split '' :: '' s of
             [] \<Rightarrow> Inl (IndexError, cats)
           | k # vs \<Rightarrow>
               add_categories rest
                 (case map_of cats k of
                    None \<Rightarrow> AList.update k vs cats
                  | Some old \<Rightarrow> AList.update k (old @ vs) cats)))"

text \<open>
  The body of the loop over \<open>ul.contents\<close> for one entry. The result is the info after
  the entry and whether the entry was decomposed (the last statement of the body, which
  the branches that store something do not reach). An exception comes with the info
  stored so far.
\<close>

definition item_step ::
  "node \<Rightarrow> info_block \<Rightarrow> (py_error \<times> info_block) + (info_block \<times> bool)" where
  "item_step entry info0 =
     (if \<not> is_tag ''li'' entry then Inr (info0, False)
      else
        (case item (find_all ''strong'' entry) 0 of
           Inl e \<Rightarrow> Inl (e, info0)
         | Inr label \<Rightarrow>
             (case node_string label of
                None \<Rightarrow> Inr (info0, False)
              | Some entry_name \<Rightarrow>
                  if entry_name = [] then Inr (info0, False)
                  else if entry_name = ''Categories'' then
                    (case add_categories (find_all ''a'' entry) [] of
                       Inl (e, cats) \<Rightarrow> Inl (e, info0\<lparr>categories := Some cats\<rparr>)
                     | Inr cats \<Rightarrow> Inr (info0\<lparr>categories := Some cats\<rparr>, False))
                  else if find_all ''span'' entry \<noteq> [] then
                    Inr (info0\<lparr>scalars :=
                           AList.update entry_name (node_string (hd (find_all ''span'' entry)))
                             (scalars info0)\<rparr>, False)
                  else if find_all ''a'' entry \<noteq> [] then
                    (case get_attr (hd (find_all ''a'' entry)) ''href'' of
                       Inl e \<Rightarrow> Inl (e, info0)
                     | Inr href \<Rightarrow>
                         Inr (info0\<lparr>scalars := AList.update entry_name (Some href) (scalars info0)\<rparr>,
                              False))
                  else Inr (info0, True))))"

text \<open>
  The loop \<open>for entry in ul.contents\<close>, over the contents from the current position on.
  Decomposing the entry takes it out of the list that the loop runs over, so the loop
  passes over the entry that follows it.
\<close>

fun walk_items ::
  "node list \<Rightarrow> info_block \<Rightarrow> (py_error \<times> info_block) + info_block" where
  "walk_items [] info0 = Inr info0"
| "walk_items (entry # rest) info0 =
     (case item_step entry info0 of
        Inl err \<Rightarrow> Inl err
      | Inr (info1, decomposed) \<Rightarrow> walk_items (if decomposed then tl rest else rest) info1)"

text \<open>
  The choice of the list and the loop over it: \<open>uls\<close> is \<open>soup("ul", class_ = "nodot")\<close>.
\<close>

definition parse_info :: "node \<Rightarrow> (py_error \<times> info_block) + info_block" where
  "parse_info soup =
     (let uls = find_all_class ''ul'' ''nodot'' soup in
      if uls = [] then Inr empty_info
      else
        (case item (find_all ''strong'' (hd uls)) 0 of
           Inl e \<Rightarrow> Inl (e, empty_info)
         | Inr label \<Rightarrow>
             (case node_string label of
                None \<Rightarrow> Inl (TypeError, empty_info)
              | Some s \<Rightarrow>
                  (case (if is_substring ''Downloads (All Versions):'' s then item uls 1
                         else item uls 0) of
                     Inl e \<Rightarrow> Inl (e, empty_info)
                   | Inr ul \<Rightarrow> walk_items (node_contents ul) empty_info))))"

subsection \<open>The parser\<close>

text \<open>
  The body of the \<open>try\<close> statement: the file table, then the info list, searched in the
  document as the first loop leaves it. An exception comes with \<open>data\<close> as it is when the
  exception is raised.
\<close>

definition parse_walk :: "node \<Rightarrow> (py_error \<times> package_detail) + package_detail" where
  "parse_walk soup =
     (case parse_files soup of
        Inl (e, fs) \<Rightarrow> Inl (e, \<lparr>files = fs, info = empty_info\<rparr>)
      | Inr (fs, soup') \<Rightarrow>
          (case parse_info soup' of
             Inl (e, info0) \<Rightarrow> Inl (e, \<lparr>files = fs, info = info0\<rparr>)
           | Inr info0 \<Rightarrow> Inr \<lparr>files = fs, info = info0\<rparr>))"

text \<open>
  What \<open>parse_package_page\<close> returns for a document, lines 303 to 383: the handler of
  \<open>except Exception\<close> replaces \<open>data\<close> by a new dictionary with an empty list of files and
  an empty info. \<open>soup.decompose()\<close> after the \<open>try\<close> statement empties the tree, returns
  nothing and raises nothing.
\<close>

definition parse_package_page :: "node \<Rightarrow> package_detail" where
  "parse_package_page soup =
     (case parse_walk soup of
        Inl (e, partial) \<Rightarrow> empty_detail
      | Inr d \<Rightarrow> d)"



subsection \<open>Example pages\<close>

text \<open>
  Pages with one info list: with two \<open>Categories\<close> items of one link each, and with one
  \<open>Categories\<close> item of two links. Pages with a file table and a home page: with one
  well-formed row, with a well-formed row followed by a row that has no link, and with
  a well-formed row and a \<open>Categories\<close> item whose only link has the text \<open>License\<close>.
\<close>

definition category_link :: "string \<Rightarrow> node" where
  "category_link s = Tag ''a'' [] [(''href'', ''/pypi?:action=browse'')] [Text s]"

definition categories_item :: "string list \<Rightarrow> node" where
  "categories_item links =
     Tag ''li'' [] [] (Tag ''strong'' [] [] [Text ''Categories''] # map category_link links)"

definition page_of_items :: "node list \<Rightarrow> node" where
  "page_of_items items =
     Tag ''[document]'' [] []
       [Tag ''html'' [] [] [Tag ''body'' [] [] [Tag ''ul'' [''nodot''] [] items]]]"

definition page_two_items :: node where
  "page_two_items =
     page_of_items [categories_item [''License :: GPL-2''], categories_item [''License :: MIT'']]"

definition page_one_item :: node where
  "page_one_item = page_of_items [categories_item [''License :: GPL-2'', ''License :: MIT'']]"

definition file_row :: "string \<Rightarrow> string \<Rightarrow> node" where
  "file_row href kind =
     Tag ''tr'' [] []
       [Tag ''td'' [] [] [Tag ''a'' [] [(''href'', href)] [Text ''foo-1.0.tar.gz'']],
        Tag ''td'' [] [] [Text kind],
        Tag ''td'' [] [] [Text ''2.7''],
        Tag ''td'' [] [] [Text ''2015-03-07''],
        Tag ''td'' [] [] [Text ''12KB'']]"

definition header_row :: node where
  "header_row = Tag ''tr'' [] [] [Tag ''th'' [] [] [Text ''File''], Tag ''th'' [] [] [Text ''Type'']]"

definition broken_row :: node where
  "broken_row = Tag ''tr'' [] [] [Tag ''td'' [] [] [Text ''no link here'']]"

definition home_page_item :: node where
  "home_page_item =
     Tag ''li'' [] []
       [Tag ''strong'' [] [] [Text ''Home Page:''],
        Tag ''a'' [] [(''href'', ''http://foo.example/'')] [Text ''http://foo.example/'']]"

definition page_of :: "node list \<Rightarrow> node list \<Rightarrow> node" where
  "page_of rows items =
     Tag ''[document]'' [] []
       [Tag ''html'' [] []
          [Tag ''body'' [] []
             [Tag ''table'' [''list''] [] rows, Tag ''ul'' [''nodot''] [] items]]]"


definition half_broken_page :: node where
  "half_broken_page = page_of
     [header_row, file_row ''https://pypi.example/p/foo-1.0.tar.gz#md5=bb22'' source_marker,
      broken_row, Tag ''tr'' [] [] []]
     [home_page_item]"

definition bare_license_page :: node where
  "bare_license_page = page_of
     [header_row, file_row ''https://pypi.example/p/foo-1.0.tar.gz#md5=bb22'' source_marker,
      Tag ''tr'' [] [] []]
     [home_page_item, categories_item [''License'']]"


section \<open>Properties of the record normalizer\<close>

subsection \<open>Auxiliary facts\<close>

lemma foldl_append_concat:
  "foldl (\<lambda>acc e. acc @ g e) a es = a @ concat (map g es)"
  by (induction es arbitrary: a) simp_all

lemma py_versions_of_concat: "py_versions_of es = concat (map tags_of_entry es)"
  by (simp add: py_versions_of_def foldl_append_concat)

lemma tags_of_entry_known: "set (tags_of_entry e) \<subseteq> set default_py_versions"
  by (auto simp: tags_of_entry_def default_py_versions_def)

lemma py_versions_of_known: "set (py_versions_of es) \<subseteq> set default_py_versions"
  using tags_of_entry_known by (auto simp: py_versions_of_concat)

lemma with_default_nonempty: "with_default vs \<noteq> []"
  by (simp add: with_default_def default_py_versions_def)

lemma with_default_known:
  "set vs \<subseteq> set default_py_versions \<Longrightarrow> set (with_default vs) \<subseteq> set default_py_versions"
  by (simp add: with_default_def)

lemma render_compat_many:
  "render_compat (v # w # ws) =
     Inr (''( python{'' @ v @ concat (map (\<lambda>t. '','' @ t) (w # ws)) @ ''} )'')"
proof -
  have "foldl (\<lambda>acc ver. acc @ '','' @ ver) a xs = a @ concat (map (\<lambda>t. '','' @ t) xs)"
    for a :: string and xs
    by (induction xs arbitrary: a) simp_all
  then show ?thesis by simp
qed

lemma render_compat_contains_head:
  "render_compat (v # vs) = Inr r \<Longrightarrow> \<exists>pre post. r = pre @ v @ post"
proof (cases vs)
  case Nil
  assume "render_compat (v # vs) = Inr r"
  with Nil have "r = ''( python'' @ v @ '' )''" by simp
  then show ?thesis by blast
next
  case (Cons w ws)
  assume "render_compat (v # vs) = Inr r"
  with Cons have "r = ''( python{'' @ v @ (concat (map (\<lambda>t. '','' @ t) (w # ws)) @ ''} )'')"
    by (simp only: render_compat_many sum.inject)
  then show ?thesis by blast
qed

lemma process_entry_Emitted:
  assumes "process_entry convert pv packages ((package, version), descr) = (calls, Emitted p e)"
  shows "\<exists>d raw. map_of packages (package @ ''-'' @ version) = Some d
           \<and> \<not> (files d = [] \<and> \<not> info_nonempty (info d))
           \<and> select_source_uri d \<noteq> []
           \<and> raw_license (info d) = Inr raw
           \<and> calls = [raw]
           \<and> render_compat (with_default (raw_py_versions (info d))) = Inr (python_compat e)
           \<and> p_version p = (if re_match version_re version then version else pv)
           \<and> p_name p = filter allowed_ords_pkg package
           \<and> realname e = package
           \<and> realversion e = version
           \<and> homepage e = homepage_of (info d)
           \<and> license e = convert raw
           \<and> source_uri e = select_source_uri d
           \<and> md5 e = snd (first_source (files d))"
  using assms
  by (auto simp: process_entry_def Let_def split: option.splits if_splits sum.splits)

lemma process_items_added:
  "(p, e) \<in> set (added (process_items convert pv packages items st)) \<Longrightarrow>
   (p, e) \<in> set (added st) \<or>
   (\<exists>item \<in> set items. \<exists>calls. process_entry convert pv packages item = (calls, Emitted p e))"
proof (induction items arbitrary: st)
  case Nil
  then show ?case by simp
next
  case (Cons item items)
  obtain calls stp where pe: "process_entry convert pv packages item = (calls, stp)"
    by (cases "process_entry convert pv packages item")
  show ?case
  proof (cases stp)
    case Skipped
    with Cons.prems pe have
      "(p, e) \<in> set (added (process_items convert pv packages items
          (st\<lparr>convert_calls := convert_calls st @ calls\<rparr>)))" by simp
    from Cons.IH [OF this] show ?thesis by auto
  next
    case (Emitted q f)
    with Cons.prems pe have
      "(p, e) \<in> set (added (process_items convert pv packages items
          (st\<lparr>added := added st @ [(q, f)], convert_calls := convert_calls st @ calls\<rparr>)))"
      by simp
    from Cons.IH [OF this] pe Emitted show ?thesis by auto
  next
    case (Raised err)
    with Cons.prems pe show ?thesis by simp
  qed
qed

lemma process_data_added:
  assumes "(p, e) \<in> set (added (process_data convert (year, month, day) packages index))"
  shows "\<exists>package version descr calls. ((package, version), descr) \<in> set index \<and>
           process_entry convert (pseudoversion year month day) packages
             ((package, version), descr) = (calls, Emitted p e)"
proof -
  from assms have "(p, e) \<in> set (added (process_items convert (pseudoversion year month day)
      packages index \<lparr>added = [], convert_calls = [], raised = None\<rparr>))"
    by (simp add: process_data_def)
  from process_items_added [OF this] obtain item calls where
    mem: "item \<in> set index" and
    pe: "process_entry convert (pseudoversion year month day) packages item
       = (calls, Emitted p e)" by auto
  obtain package version descr where "item = ((package, version), descr)"
    by (metis prod.collapse)
  with mem pe show ?thesis by blast
qed

lemma first_source_find:
  "first_source fs =
     (case find (\<lambda>f. f_type f = Some source_marker) fs of
        None \<Rightarrow> ([], [])
      | Some f \<Rightarrow> (f_url f, f_md5 f))"
  by (induction fs) simp_all

lemma truthy_download_url:
  "truthy (download_url_of i) \<longleftrightarrow>
     (\<exists>u. map_of (scalars i) ''Download URL:'' = Some (Some u) \<and> u \<noteq> [])"
proof (cases "map_of (scalars i) ''Download URL:''")
  case None
  then show ?thesis by (simp add: download_url_of_def)
next
  case (Some v)
  then have "scalars i \<noteq> []" by auto
  with Some show ?thesis
    by (cases v) (simp_all add: download_url_of_def info_nonempty_def)
qed

lemma render_compat_default:
  "\<exists>rendered. render_compat (with_default vs) = Inr rendered"
proof (cases "with_default vs" rule: render_compat.cases)
  case 1
  then show ?thesis using with_default_nonempty [of vs] by simp
next
  case (2 v)
  then show ?thesis by simp
next
  case (3 v vb vc)
  then show ?thesis by simp
qed

lemma process_entry_emits:
  assumes "map_of packages (package @ ''-'' @ version) = Some d"
    and "\<not> (files d = [] \<and> \<not> info_nonempty (info d))"
    and "select_source_uri d \<noteq> []"
    and "raw_license (info d) = Inr raw"
  shows "\<exists>rendered. render_compat (with_default (raw_py_versions (info d))) = Inr rendered \<and>
     process_entry convert pv packages ((package, version), descr) =
       ([raw],
        Emitted
          \<lparr>p_category = ''dev-python'',
           p_name = filter allowed_ords_pkg package,
           p_version = (if re_match version_re version then version else pv)\<rparr>
          \<lparr>realname = package,
           realversion = version,
           description = filter allowed_ords_desc descr,
           longdescription = filter allowed_ords_desc descr,
           homepage = homepage_of (info d),
           license = convert raw,
           source_uri = select_source_uri d,
           md5 = snd (first_source (files d)),
           python_compat = rendered\<rparr>)"
proof -
  obtain rendered where
    r: "render_compat (with_default (raw_py_versions (info d))) = Inr rendered"
    using render_compat_default by blast
  with assms show ?thesis by (auto simp: process_entry_def Let_def)
qed

lemma process_entry_raises:
  assumes "map_of packages (package @ ''-'' @ version) = Some d"
    and "\<not> (files d = [] \<and> \<not> info_nonempty (info d))"
    and "select_source_uri d \<noteq> []"
    and "raw_license (info d) = Inl err"
  shows "process_entry convert pv packages ((package, version), descr) = ([], Raised err)"
  using assms by (auto simp: process_entry_def Let_def)

lemma process_entry_skips:
  assumes "map_of packages (package @ ''-'' @ version) = Some d"
    and "select_source_uri d = []"
  shows "process_entry convert pv packages ((package, version), descr) = ([], Skipped)"
  using assms by (auto simp: process_entry_def Let_def)

text \<open>
  Claim C3. For an index entry whose detail is in the store and is not empty (it has a
  file or an info entry): when the info has a non-empty download URL (the key is
  \<open>"Download URL:"\<close>), a record is emitted with that URL as its \<open>source_uri\<close>; when the
  field is absent, \<open>None\<close> or empty, and a file has exactly the source marker as its
  type, a record is emitted with the url and md5 of the first such file, unless that
  url is empty, in which case the entry is skipped; when there is no such file either,
  the entry is skipped, with no call of the license lookup and no record. The one entry
  with a \<open>source_uri\<close> for which no record is emitted is the one whose \<open>License\<close> group
  holds no value: there the loop ends with the exception of the license step.
\<close>

theorem source_uri_selection:
  assumes "map_of packages (package @ ''-'' @ version) = Some d"
    and "\<not> (files d = [] \<and> \<not> info_nonempty (info d))"
  shows
    "(\<forall>u. map_of (scalars (info d)) ''Download URL:'' = Some (Some u) \<and> u \<noteq> [] \<longrightarrow>
        (case raw_license (info d) of
           Inr raw \<Rightarrow>
             (\<exists>p e. process_entry convert pv packages ((package, version), descr)
                      = ([raw], Emitted p e) \<and> source_uri e = u)
         | Inl err \<Rightarrow>
             process_entry convert pv packages ((package, version), descr)
               = ([], Raised err))) \<and>
     (map_of (scalars (info d)) ''Download URL:'' \<in> {None, Some None, Some (Some [])} \<longrightarrow>
        (case find (\<lambda>f. f_type f = Some source_marker) (files d) of
           Some f \<Rightarrow>
             (if f_url f = [] then
                process_entry convert pv packages ((package, version), descr) = ([], Skipped)
              else
                (case raw_license (info d) of
                   Inr raw \<Rightarrow>
                     (\<exists>p e. process_entry convert pv packages ((package, version), descr)
                              = ([raw], Emitted p e) \<and>
                            source_uri e = f_url f \<and> md5 e = f_md5 f)
                 | Inl err \<Rightarrow>
                     process_entry convert pv packages ((package, version), descr)
                       = ([], Raised err)))
         | None \<Rightarrow>
             process_entry convert pv packages ((package, version), descr) = ([], Skipped)))"
proof (intro conjI allI impI)
  fix u
  assume dl: "map_of (scalars (info d)) ''Download URL:'' = Some (Some u) \<and> u \<noteq> []"
  then have "scalars (info d) \<noteq> []" by auto
  with dl have sel: "select_source_uri d = u"
    by (simp add: select_source_uri_def download_url_of_def info_nonempty_def)
  with dl have ne: "select_source_uri d \<noteq> []" by simp
  show "case raw_license (info d) of
           Inr raw \<Rightarrow>
             (\<exists>p e. process_entry convert pv packages ((package, version), descr)
                      = ([raw], Emitted p e) \<and> source_uri e = u)
         | Inl err \<Rightarrow>
             process_entry convert pv packages ((package, version), descr)
               = ([], Raised err)"
  proof (cases "raw_license (info d)")
    case (Inl err)
    with process_entry_raises [OF assms ne Inl] show ?thesis by simp
  next
    case (Inr raw)
    from process_entry_emits [OF assms ne Inr, of convert pv descr] sel Inr
    show ?thesis by auto
  qed
next
  assume "map_of (scalars (info d)) ''Download URL:'' \<in> {None, Some None, Some (Some [])}"
  then have "\<not> truthy (download_url_of (info d))"
    by (auto simp: truthy_download_url)
  then have sel: "select_source_uri d = fst (first_source (files d))"
    by (simp add: select_source_uri_def Let_def)
  show "case find (\<lambda>f. f_type f = Some source_marker) (files d) of
           Some f \<Rightarrow>
             (if f_url f = [] then
                process_entry convert pv packages ((package, version), descr) = ([], Skipped)
              else
                (case raw_license (info d) of
                   Inr raw \<Rightarrow>
                     (\<exists>p e. process_entry convert pv packages ((package, version), descr)
                              = ([raw], Emitted p e) \<and>
                            source_uri e = f_url f \<and> md5 e = f_md5 f)
                 | Inl err \<Rightarrow>
                     process_entry convert pv packages ((package, version), descr)
                       = ([], Raised err)))
         | None \<Rightarrow>
             process_entry convert pv packages ((package, version), descr) = ([], Skipped)"
  proof (cases "find (\<lambda>f. f_type f = Some source_marker) (files d)")
    case None
    with sel have "select_source_uri d = []" by (simp add: first_source_find)
    from process_entry_skips [OF assms(1) this] None show ?thesis by simp
  next
    case (Some f)
    with sel have su: "select_source_uri d = f_url f" and
      fm: "snd (first_source (files d)) = f_md5 f" by (simp_all add: first_source_find)
    show ?thesis
    proof (cases "f_url f = []")
      case True
      with su have "select_source_uri d = []" by simp
      from process_entry_skips [OF assms(1) this] Some True show ?thesis by simp
    next
      case False
      with su have ne: "select_source_uri d \<noteq> []" by simp
      show ?thesis
      proof (cases "raw_license (info d)")
        case (Inl err)
        with process_entry_raises [OF assms ne Inl] Some False show ?thesis by simp
      next
        case (Inr raw)
        from process_entry_emits [OF assms ne Inr, of convert pv descr] su fm Inr Some False
        show ?thesis by auto
      qed
    qed
  qed
qed

lemma example_run:
  "added (process_data (\<lambda>x. x) (2015, 3, 7) example_packages example_index) =
    [(\<lparr>p_category = ''dev-python'', p_name = ''foo'', p_version = ''1.2.3''\<rparr>,
      \<lparr>realname = ''foo'', realversion = ''1.2.3'', description = [],
         longdescription = [], homepage = Some ''http://foo.example/'',
         license = ''MIT License'',
         source_uri = ''https://pypi.example/packages/foo-1.0.tar.gz'',
         md5 = ''bb22'', python_compat = ''( python{2_7,2_7} )''\<rparr>),
     (\<lparr>p_category = ''dev-python'', p_name = ''bar'', p_version = ''20150307''\<rparr>,
      \<lparr>realname = ''bar'', realversion = ''1.0-beta'', description = [],
         longdescription = [], homepage = Some ''http://foo.example/'',
         license = ''MIT License'',
         source_uri = ''https://pypi.example/packages/foo-1.0.tar.gz'',
         md5 = ''bb22'', python_compat = ''( python{2_7,2_7} )''\<rparr>)]"
  by code_simp

text \<open>
  The theorem at a page with a download URL and at the example page, which has none, a
  wheel first and a source file second.
\<close>

theorem source_uri_selection_witness:
  "(\<exists>p e. process_entry (\<lambda>x. x) ''20150307'' [(''foo-1.0'', example_download)]
             ((''foo'', ''1.0''), []) = ([[]], Emitted p e) \<and>
          source_uri e = ''http://dl.example/foo-1.0.zip'') \<and>
   (\<exists>p e. process_entry (\<lambda>x. x) ''20150307'' example_packages ((''foo'', ''1.2.3''), [])
             = ([''MIT License''], Emitted p e) \<and>
          source_uri e = ''https://pypi.example/packages/foo-1.0.tar.gz'' \<and> md5 e = ''bb22'')"
proof -
  have a1: "map_of [(''foo-1.0'', example_download)] (''foo'' @ ''-'' @ ''1.0'')
              = Some example_download" by simp
  have b1: "\<not> (files example_download = [] \<and> \<not> info_nonempty (info example_download))"
    by (simp add: example_download_def)
  have c1: "map_of (scalars (info example_download)) ''Download URL:''
              = Some (Some ''http://dl.example/foo-1.0.zip'') \<and>
            ''http://dl.example/foo-1.0.zip'' \<noteq> []"
    by (simp add: example_download_def)
  have l1: "raw_license (info example_download) = Inr []"
    by (simp add: raw_license_def categories_of_def example_download_def info_nonempty_def)
  have "case raw_license (info example_download) of
           Inr raw \<Rightarrow>
             (\<exists>p e. process_entry (\<lambda>x. x) ''20150307'' [(''foo-1.0'', example_download)]
                      ((''foo'', ''1.0''), []) = ([raw], Emitted p e) \<and>
                    source_uri e = ''http://dl.example/foo-1.0.zip'')
         | Inl err \<Rightarrow>
             process_entry (\<lambda>x. x) ''20150307'' [(''foo-1.0'', example_download)]
               ((''foo'', ''1.0''), []) = ([], Raised err)"
    using source_uri_selection [OF a1 b1, of "\<lambda>x. x" "''20150307''" "[]"] c1 by blast
  with l1 have 1: "\<exists>p e. process_entry (\<lambda>x. x) ''20150307'' [(''foo-1.0'', example_download)]
             ((''foo'', ''1.0''), []) = ([[]], Emitted p e) \<and>
          source_uri e = ''http://dl.example/foo-1.0.zip''" by simp
  have a2: "map_of example_packages (''foo'' @ ''-'' @ ''1.2.3'') = Some example_detail"
    by (simp add: example_packages_def)
  have b2: "\<not> (files example_detail = [] \<and> \<not> info_nonempty (info example_detail))"
    by (simp add: example_detail_def)
  have c2: "map_of (scalars (info example_detail)) ''Download URL:''
             \<in> {None, Some None, Some (Some [])}"
    by (simp add: example_detail_def)
  have f2: "find (\<lambda>f. f_type f = Some source_marker) (files example_detail) = Some example_sdist"
    by (simp add: example_detail_def example_wheel_def example_sdist_def source_marker_def)
  have l2: "raw_license (info example_detail) = Inr ''MIT License''"
    by (simp add: raw_license_def categories_of_def example_detail_def info_nonempty_def)
  have u2: "f_url example_sdist = ''https://pypi.example/packages/foo-1.0.tar.gz''"
    and m2: "f_md5 example_sdist = ''bb22''" by (simp_all add: example_sdist_def)
  have "case find (\<lambda>f. f_type f = Some source_marker) (files example_detail) of
           Some f \<Rightarrow>
             (if f_url f = [] then
                process_entry (\<lambda>x. x) ''20150307'' example_packages ((''foo'', ''1.2.3''), [])
                  = ([], Skipped)
              else
                (case raw_license (info example_detail) of
                   Inr raw \<Rightarrow>
                     (\<exists>p e. process_entry (\<lambda>x. x) ''20150307'' example_packages
                              ((''foo'', ''1.2.3''), []) = ([raw], Emitted p e) \<and>
                            source_uri e = f_url f \<and> md5 e = f_md5 f)
                 | Inl err \<Rightarrow>
                     process_entry (\<lambda>x. x) ''20150307'' example_packages
                       ((''foo'', ''1.2.3''), []) = ([], Raised err)))
         | None \<Rightarrow>
             process_entry (\<lambda>x. x) ''20150307'' example_packages ((''foo'', ''1.2.3''), [])
               = ([], Skipped)"
    using source_uri_selection [OF a2 b2, of "\<lambda>x. x" "''20150307''" "[]"] c2 by blast
  with f2 l2 u2 m2 have 2:
    "\<exists>p e. process_entry (\<lambda>x. x) ''20150307'' example_packages ((''foo'', ''1.2.3''), [])
             = ([''MIT License''], Emitted p e) \<and>
          source_uri e = ''https://pypi.example/packages/foo-1.0.tar.gz'' \<and> md5 e = ''bb22''"
    by simp
  from 1 2 show ?thesis by blast
qed

lemma digit_char_is_digit: "d < 10 \<Longrightarrow> is_digit (digit_char d)"
  by (simp add: is_digit_def digit_char_def)

lemma decimal_digits: "\<forall>c \<in> set (decimal n). is_digit c"
proof (induction n rule: decimal.induct)
  case (1 n)
  show ?case
  proof (cases "n < 10")
    case True
    then show ?thesis by (subst decimal.simps) (simp add: digit_char_is_digit)
  next
    case False
    with 1 show ?thesis by (subst decimal.simps) (simp add: digit_char_is_digit)
  qed
qed

lemma length_decimal_1: "n < 10 \<Longrightarrow> length (decimal n) = 1"
  by (subst decimal.simps) simp

lemma length_decimal_2: "n < 100 \<Longrightarrow> length (decimal n) \<le> 2"
  by (subst decimal.simps) (simp add: length_decimal_1)

lemma length_decimal_3: "n < 1000 \<Longrightarrow> length (decimal n) \<le> 3"
proof -
  assume "n < 1000"
  then have "n div 10 < 100" by simp
  then have "length (decimal (n div 10)) \<le> 2" by (rule length_decimal_2)
  then show ?thesis by (subst decimal.simps) simp
qed

lemma length_decimal_4: "n < 10000 \<Longrightarrow> length (decimal n) \<le> 4"
proof -
  assume "n < 10000"
  then have "n div 10 < 1000" by simp
  then have "length (decimal (n div 10)) \<le> 3" by (rule length_decimal_3)
  then show ?thesis by (subst decimal.simps) simp
qed

lemma length_zero_pad: "length (decimal n) \<le> w \<Longrightarrow> length (zero_pad w n) = w"
  by (simp add: zero_pad_def)

lemma zero_pad_digits: "\<forall>c \<in> set (zero_pad w n). is_digit c"
  using decimal_digits [of n] by (auto simp: zero_pad_def is_digit_def)

lemma pseudoversion_shape:
  assumes "year < 10000" "month < 100" "day < 100"
  shows "length (pseudoversion year month day) = 8"
    and "\<forall>c \<in> set (pseudoversion year month day). is_digit c"
proof -
  from assms show "length (pseudoversion year month day) = 8"
    by (simp add: pseudoversion_def length_zero_pad length_decimal_4 length_decimal_2)
  show "\<forall>c \<in> set (pseudoversion year month day). is_digit c"
    using zero_pad_digits by (auto simp: pseudoversion_def)
qed

lemma digit_char_values:
  "digit_char 0 = CHR ''0''" "digit_char 1 = CHR ''1''" "digit_char 2 = CHR ''2''"
  "digit_char 3 = CHR ''3''" "digit_char 4 = CHR ''4''" "digit_char 5 = CHR ''5''"
  "digit_char 6 = CHR ''6''" "digit_char 7 = CHR ''7''" "digit_char 8 = CHR ''8''"
  "digit_char 9 = CHR ''9''"
  by code_simp+

lemma digit_char_nth: "d < 10 \<Longrightarrow> digit_char d = ''0123456789'' ! d"
proof -
  assume "d < 10"
  then have "d \<in> {0, 1, 2, 3, 4, 5, 6, 7, 8, 9}" by auto
  then show ?thesis using digit_char_values by auto
qed

lemma replicate_small:
  "replicate 1 c = [c]" "replicate 2 c = [c, c]" "replicate 3 c = [c, c, c]"
  by (simp_all add: numeral_2_eq_2 numeral_3_eq_3)

lemma decimal_1: "n < 10 \<Longrightarrow> decimal n = [digit_char n]"
  by (subst decimal.simps) simp

lemma decimal_2:
  "10 \<le> n \<Longrightarrow> n < 100 \<Longrightarrow> decimal n = [digit_char (n div 10), digit_char (n mod 10)]"
  by (subst decimal.simps) (simp add: decimal_1)

lemma decimal_3:
  assumes "100 \<le> n" "n < 1000"
  shows "decimal n = [digit_char (n div 100), digit_char (n div 10 mod 10), digit_char (n mod 10)]"
proof -
  from assms have "10 \<le> n div 10" "n div 10 < 100" by simp_all
  then have "decimal (n div 10) = [digit_char (n div 10 div 10), digit_char (n div 10 mod 10)]"
    by (rule decimal_2)
  moreover have "n div 10 div 10 = n div 100" by (simp add: div_mult2_eq [symmetric])
  ultimately show ?thesis using assms by (subst decimal.simps) simp
qed

lemma decimal_4:
  assumes "1000 \<le> n" "n < 10000"
  shows "decimal n = [digit_char (n div 1000), digit_char (n div 100 mod 10),
                      digit_char (n div 10 mod 10), digit_char (n mod 10)]"
proof -
  from assms have "100 \<le> n div 10" "n div 10 < 1000" by simp_all
  then have "decimal (n div 10) = [digit_char (n div 10 div 100),
      digit_char (n div 10 div 10 mod 10), digit_char (n div 10 mod 10)]"
    by (rule decimal_3)
  moreover have "n div 10 div 100 = n div 1000" "n div 10 div 10 = n div 100"
    by (simp_all add: div_mult2_eq [symmetric])
  ultimately show ?thesis using assms by (subst decimal.simps) simp
qed

lemma zero_pad_2:
  assumes "n < 100"
  shows "zero_pad 2 n = [digit_char (n div 10), digit_char (n mod 10)]"
proof (cases "n < 10")
  case True
  then show ?thesis by (simp add: zero_pad_def decimal_1 digit_char_values(1) replicate_small)
next
  case False
  with assms show ?thesis by (simp add: zero_pad_def decimal_2)
qed

lemma zero_pad_4:
  assumes "n < 10000"
  shows "zero_pad 4 n = [digit_char (n div 1000), digit_char (n div 100 mod 10),
                         digit_char (n div 10 mod 10), digit_char (n mod 10)]"
proof -
  consider "n < 10" | "10 \<le> n" "n < 100" | "100 \<le> n" "n < 1000" | "1000 \<le> n"
    by linarith
  then show ?thesis
  proof cases
    case 1
    then show ?thesis by (simp add: zero_pad_def decimal_1 digit_char_values(1) replicate_small)
  next
    case 2
    then show ?thesis by (simp add: zero_pad_def decimal_2 digit_char_values(1) replicate_small)
  next
    case 3
    then show ?thesis by (simp add: zero_pad_def decimal_3 digit_char_values(1) replicate_small)
  next
    case 4
    with assms show ?thesis by (simp add: zero_pad_def decimal_4)
  qed
qed

lemma pseudoversion_digits:
  assumes "year < 10000" "month < 100" "day < 100"
  shows "pseudoversion year month day =
     map (\<lambda>d. ''0123456789'' ! d)
       [year div 1000, year div 100 mod 10, year div 10 mod 10, year mod 10,
        month div 10, month mod 10, day div 10, day mod 10]"
proof -
  have lt: "year div 1000 < 10" "year div 100 mod 10 < 10" "year div 10 mod 10 < 10"
    "year mod 10 < 10" "month div 10 < 10" "month mod 10 < 10" "day div 10 < 10"
    "day mod 10 < 10"
    using assms by simp_all
  show ?thesis
    using assms lt
    by (simp add: pseudoversion_def zero_pad_4 zero_pad_2 digit_char_nth)
qed

text \<open>
  The version grammar at some more strings. A newline at the end is passed over by \<open>$\<close>.
\<close>

lemma version_re_examples:
  "re_match version_re ''12''" "re_match version_re ''12a''" "re_match version_re ''1..2b''"
  "re_match version_re (''1.2'' @ [CHR 0x0A])"
  "\<not> re_match version_re ''1.a''" "\<not> re_match version_re ''1.''" "\<not> re_match version_re ''''"
  "\<not> re_match version_re ''v1.2''" "\<not> re_match version_re ''1.2ab''"
  by code_simp+

text \<open>
  Claim C4. Every record that a run of \<open>process_data\<close> adds has as its version the
  original version string when \<open>re.match\<close> finds the version grammar in it, and the
  pseudo-version of the run date otherwise. \<open>"1.2.3"\<close> matches and \<open>"1.0-beta"\<close> does not.
  The pseudo-version of a date whose year has at most four digits is \<open>YYYYMMDD\<close>: the
  four decimal digits of the year, the two of the month and the two of the day, each
  with its leading zeros.
\<close>

theorem version_grammar:
  "(\<forall>p e. (p, e) \<in> set (added (process_data convert (year, month, day) packages index)) \<longrightarrow>
      p_version p = (if re_match version_re (realversion e) then realversion e
                     else pseudoversion year month day)) \<and>
   re_match version_re ''1.2.3'' \<and>
   \<not> re_match version_re ''1.0-beta'' \<and>
   (year < 10000 \<and> month < 100 \<and> day < 100 \<longrightarrow>
      pseudoversion year month day =
        map (\<lambda>d. ''0123456789'' ! d)
          [year div 1000, year div 100 mod 10, year div 10 mod 10, year mod 10,
           month div 10, month mod 10, day div 10, day mod 10] \<and>
      length (pseudoversion year month day) = 8 \<and>
      (\<forall>c \<in> set (pseudoversion year month day). is_digit c)) \<and>
   pseudoversion 2015 3 7 = ''20150307''"
proof (intro conjI allI impI)
  fix p e
  assume "(p, e) \<in> set (added (process_data convert (year, month, day) packages index))"
  from process_data_added [OF this] obtain package version descr calls where
    "process_entry convert (pseudoversion year month day) packages
       ((package, version), descr) = (calls, Emitted p e)" by blast
  from process_entry_Emitted [OF this]
  show "p_version p = (if re_match version_re (realversion e) then realversion e
                       else pseudoversion year month day)" by auto
next
  show "re_match version_re ''1.2.3''" by code_simp
  show "\<not> re_match version_re ''1.0-beta''" by code_simp
  show "pseudoversion 2015 3 7 = ''20150307''" by code_simp
next
  assume "year < 10000 \<and> month < 100 \<and> day < 100"
  then show "pseudoversion year month day =
        map (\<lambda>d. ''0123456789'' ! d)
          [year div 1000, year div 100 mod 10, year div 10 mod 10, year mod 10,
           month div 10, month mod 10, day div 10, day mod 10]"
    by (simp only: pseudoversion_digits)
next
  assume "year < 10000 \<and> month < 100 \<and> day < 100"
  then show "length (pseudoversion year month day) = 8"
    by (simp add: pseudoversion_shape)
next
  show "\<forall>c \<in> set (pseudoversion year month day). is_digit c"
    using zero_pad_digits by (auto simp: pseudoversion_def)
qed

text \<open>
  The theorem at the example run on two dates: \<open>"1.2.3"\<close> is kept, and \<open>"1.0-beta"\<close>
  becomes \<open>"20150307"\<close> on 7 March 2015 and \<open>"20161231"\<close> on 31 December 2016.
\<close>

theorem version_grammar_witness:
  "map (\<lambda>(p, e). (realversion e, p_version p))
     (added (process_data (\<lambda>x. x) (2015, 3, 7) example_packages example_index))
     = [(''1.2.3'', ''1.2.3''), (''1.0-beta'', ''20150307'')] \<and>
   p_version (fst (last (added (process_data (\<lambda>x. x) (2015, 3, 7) example_packages
       example_index)))) = pseudoversion 2015 3 7 \<and>
   pseudoversion 2016 12 31 = ''20161231'' \<and>
   map (\<lambda>(p, e). (realversion e, p_version p))
     (added (process_data (\<lambda>x. x) (2016, 12, 31) example_packages example_index))
     = [(''1.2.3'', ''1.2.3''), (''1.0-beta'', ''20161231'')]"
proof -
  let ?run = "added (process_data (\<lambda>x. x) (2015, 3, 7) example_packages example_index)"
  let ?late = "added (process_data (\<lambda>x. x) (2016, 12, 31) example_packages example_index)"
  have ne: "?run \<noteq> []" by (simp add: example_run)
  have vs: "map (\<lambda>(p, e). (realversion e, p_version p)) ?run
     = [(''1.2.3'', ''1.2.3''), (''1.0-beta'', ''20150307'')]" by (simp add: example_run)
  have mem: "(fst (last ?run), snd (last ?run)) \<in> set ?run" using ne by simp
  have nm: "\<not> re_match version_re (realversion (snd (last ?run)))"
  proof -
    have "realversion (snd (last ?run)) = ''1.0-beta''" by (simp add: example_run)
    moreover have "\<not> re_match version_re ''1.0-beta''" by code_simp
    ultimately show ?thesis by simp
  qed
  from version_grammar [of "\<lambda>x. x" 2015 3 7 example_packages example_index] mem
  have "p_version (fst (last ?run)) =
      (if re_match version_re (realversion (snd (last ?run))) then realversion (snd (last ?run))
       else pseudoversion 2015 3 7)" by blast
  with nm have 1: "p_version (fst (last ?run)) = pseudoversion 2015 3 7" by simp
  have "(2016::nat) < 10000 \<and> (12::nat) < 100 \<and> (31::nat) < 100 \<longrightarrow>
      pseudoversion 2016 12 31 =
        map (\<lambda>d. ''0123456789'' ! d)
          [2016 div 1000, 2016 div 100 mod 10, 2016 div 10 mod 10, 2016 mod 10,
           12 div 10, 12 mod 10, 31 div 10, 31 mod 10]"
    using version_grammar [of "\<lambda>x. x" 2016 12 31 example_packages example_index] by blast
  then have 2: "pseudoversion 2016 12 31 = ''20161231''" by simp
  have 3: "map (\<lambda>(p, e). (realversion e, p_version p)) ?late
     = [(''1.2.3'', ''1.2.3''), (''1.0-beta'', ''20161231'')]" by code_simp
  from vs 1 2 3 show ?thesis by blast
qed

text \<open>
  Claim C5, as stated, does not hold: the expression for the entries \<open>["2", "3.4"]\<close> is
  not the string \<open>(python{2_7,3_4})\<close>, and the expression for one tag is not the tag
  alone in parentheses.
\<close>

theorem compat_rendering_counterexample:
  "render_compat (with_default (py_versions_of [''2'', ''3.4''])) \<noteq> Inr ''(python{2_7,3_4})'' \<and>
   render_compat (with_default (py_versions_of [''2''])) \<noteq> Inr ''(2_7)''"
  by code_simp

text \<open>
  Claim C5, amended. The entries \<open>["2", "3.4"]\<close> map to the tags \<open>2_7\<close> and \<open>3_4\<close> in that
  order and the expression is \<open>( python{2_7,3_4} )\<close>, with a space after the opening and
  before the closing parenthesis. One tag \<open>t\<close> is rendered as \<open>( pythont )\<close>: the prefix
  \<open>python\<close>, the tag, the same spaces. Two or more tags are rendered as the prefix, an
  opening brace, the tags separated by commas, a closing brace.
\<close>

theorem compat_rendering:
  "py_versions_of [''2'', ''3.4''] = [''2_7'', ''3_4''] \<and>
   render_compat (with_default (py_versions_of [''2'', ''3.4''])) = Inr ''( python{2_7,3_4} )'' \<and>
   (\<forall>t. render_compat [t] = Inr (''( python'' @ t @ '' )'')) \<and>
   (\<forall>t u us. render_compat (t # u # us) =
      Inr (''( python{'' @ t @ concat (map (\<lambda>v. '','' @ v) (u # us)) @ ''} )''))"
proof (intro conjI allI)
  show "py_versions_of [''2'', ''3.4''] = [''2_7'', ''3_4'']" by code_simp
  show "render_compat (with_default (py_versions_of [''2'', ''3.4'']))
          = Inr ''( python{2_7,3_4} )''" by code_simp
  show "render_compat [t] = Inr (''( python'' @ t @ '' )'')" for t by simp
  show "render_compat (t # u # us) =
      Inr (''( python{'' @ t @ concat (map (\<lambda>v. '','' @ v) (u # us)) @ ''} )'')" for t u us
    by (rule render_compat_many)
qed

text \<open>
  Claim C7. Every record that a run of \<open>process_data\<close> adds has a compatibility
  expression that is the rendering of a non-empty list of tags, each of them one of the
  four supported tags, and the first tag stands in the expression. The list is the one
  computed from the \<open>Programming Language\<close> group, kept when it has a tag and replaced by
  the full supported set \<open>['2_7', '3_3', '3_4', '3_5']\<close> when it has none. An entry that
  has a \<open>source_uri\<close>, passes the license step and yields no tag is emitted, alone in a
  run as well, with the expression \<open>( python{2_7,3_3,3_4,3_5} )\<close>.
\<close>

theorem compat_has_runtime_tag:
  "(\<forall>p e. (p, e) \<in> set (added (process_data convert (year, month, day) packages index)) \<longrightarrow>
     (\<exists>d tags. map_of packages (realname e @ ''-'' @ realversion e) = Some d \<and>
        tags = with_default (raw_py_versions (info d)) \<and>
        tags \<noteq> [] \<and>
        set tags \<subseteq> set default_py_versions \<and>
        render_compat tags = Inr (python_compat e) \<and>
        (\<exists>pre post. python_compat e = pre @ hd tags @ post) \<and>
        (raw_py_versions (info d) = [] \<longrightarrow> tags = [''2_7'', ''3_3'', ''3_4'', ''3_5'']))) \<and>
   with_default [] = [''2_7'', ''3_3'', ''3_4'', ''3_5''] \<and>
   (\<forall>vs. vs \<noteq> [] \<longrightarrow> with_default vs = vs) \<and>
   (\<forall>package version descr d raw.
      map_of packages (package @ ''-'' @ version) = Some d \<and>
      \<not> (files d = [] \<and> \<not> info_nonempty (info d)) \<and>
      select_source_uri d \<noteq> [] \<and> raw_license (info d) = Inr raw \<and>
      raw_py_versions (info d) = [] \<longrightarrow>
      (\<exists>p e. process_entry convert pv packages ((package, version), descr)
               = ([raw], Emitted p e) \<and>
             python_compat e = ''( python{2_7,3_3,3_4,3_5} )'') \<and>
      (\<exists>p e. added (process_data convert (year, month, day) packages
                 [((package, version), descr)]) = [(p, e)] \<and>
             python_compat e = ''( python{2_7,3_3,3_4,3_5} )''))"
proof (intro conjI allI impI)
  fix p e
  assume "(p, e) \<in> set (added (process_data convert (year, month, day) packages index))"
  from process_data_added [OF this] obtain package version descr calls where
    "process_entry convert (pseudoversion year month day) packages
       ((package, version), descr) = (calls, Emitted p e)" by blast
  from process_entry_Emitted [OF this] obtain d where
    d: "map_of packages (realname e @ ''-'' @ realversion e) = Some d" and
    r: "render_compat (with_default (raw_py_versions (info d))) = Inr (python_compat e)"
    by auto
  let ?tags = "with_default (raw_py_versions (info d))"
  have ne: "?tags \<noteq> []" by (rule with_default_nonempty)
  have "set (raw_py_versions (info d)) \<subseteq> set default_py_versions"
    using py_versions_of_known by (auto simp: raw_py_versions_def split: option.splits)
  then have sub: "set ?tags \<subseteq> set default_py_versions" by (rule with_default_known)
  from ne obtain v vs where vv: "?tags = v # vs" by (cases ?tags) auto
  with r have "\<exists>pre post. python_compat e = pre @ v @ post"
    using render_compat_contains_head by metis
  with vv have cont: "\<exists>pre post. python_compat e = pre @ hd ?tags @ post" by simp
  have dflt: "raw_py_versions (info d) = [] \<longrightarrow> ?tags = [''2_7'', ''3_3'', ''3_4'', ''3_5'']"
    by (simp add: with_default_def default_py_versions_def)
  from d ne sub r cont dflt show
    "\<exists>d tags. map_of packages (realname e @ ''-'' @ realversion e) = Some d \<and>
        tags = with_default (raw_py_versions (info d)) \<and>
        tags \<noteq> [] \<and>
        set tags \<subseteq> set default_py_versions \<and>
        render_compat tags = Inr (python_compat e) \<and>
        (\<exists>pre post. python_compat e = pre @ hd tags @ post) \<and>
        (raw_py_versions (info d) = [] \<longrightarrow> tags = [''2_7'', ''3_3'', ''3_4'', ''3_5''])"
    by blast
next
  show "with_default [] = [''2_7'', ''3_3'', ''3_4'', ''3_5'']"
    by (simp add: with_default_def default_py_versions_def)
next
  fix vs :: "string list"
  assume "vs \<noteq> []"
  then show "with_default vs = vs" by (simp add: with_default_def)
next
  fix package version descr d raw
  assume a: "map_of packages (package @ ''-'' @ version) = Some d \<and>
      \<not> (files d = [] \<and> \<not> info_nonempty (info d)) \<and>
      select_source_uri d \<noteq> [] \<and> raw_license (info d) = Inr raw \<and>
      raw_py_versions (info d) = []"
  have rd: "render_compat (with_default []) = Inr ''( python{2_7,3_3,3_4,3_5} )''"
    by (simp add: with_default_def default_py_versions_def)
  from a have a1: "map_of packages (package @ ''-'' @ version) = Some d"
    and a2: "\<not> (files d = [] \<and> \<not> info_nonempty (info d))"
    and a3: "select_source_uri d \<noteq> []" and a4: "raw_license (info d) = Inr raw"
    and a5: "raw_py_versions (info d) = []" by simp_all
  from process_entry_emits [OF a1 a2 a3 a4, of convert pv descr] a5 rd
  show "\<exists>p e. process_entry convert pv packages ((package, version), descr)
               = ([raw], Emitted p e) \<and>
             python_compat e = ''( python{2_7,3_3,3_4,3_5} )''" by auto
  from process_entry_emits [OF a1 a2 a3 a4, of convert "pseudoversion year month day" descr]
    a5 rd
  show "\<exists>p e. added (process_data convert (year, month, day) packages
                 [((package, version), descr)]) = [(p, e)] \<and>
             python_compat e = ''( python{2_7,3_3,3_4,3_5} )''"
    by (auto simp: process_data_def)
qed

text \<open>
  The theorem at a page with a source file and no info, which yields no tag and gets
  the default expression, and at the first record of the example run.
\<close>

theorem compat_has_runtime_tag_witness:
  "(\<exists>p e. process_entry (\<lambda>x. x) ''20150307'' [(''foo-1.0'', example_no_info)]
             ((''foo'', ''1.0''), []) = ([[]], Emitted p e) \<and>
          python_compat e = ''( python{2_7,3_3,3_4,3_5} )'') \<and>
   (\<exists>p e. added (process_data (\<lambda>x. x) (2015, 3, 7) [(''foo-1.0'', example_no_info)]
             [((''foo'', ''1.0''), [])]) = [(p, e)] \<and>
          python_compat e = ''( python{2_7,3_3,3_4,3_5} )'') \<and>
   (\<exists>d tags. map_of example_packages (''foo'' @ ''-'' @ ''1.2.3'') = Some d \<and>
      tags = with_default (raw_py_versions (info d)) \<and> tags \<noteq> [] \<and>
      render_compat tags = Inr ''( python{2_7,2_7} )'')"
proof -
  have h: "map_of [(''foo-1.0'', example_no_info)] (''foo'' @ ''-'' @ ''1.0'')
             = Some example_no_info \<and>
      \<not> (files example_no_info = [] \<and> \<not> info_nonempty (info example_no_info)) \<and>
      select_source_uri example_no_info \<noteq> [] \<and> raw_license (info example_no_info) = Inr [] \<and>
      raw_py_versions (info example_no_info) = []"
    by (simp add: example_no_info_def example_sdist_def empty_info_def select_source_uri_def
        download_url_of_def info_nonempty_def raw_license_def categories_of_def
        raw_py_versions_def)
  have new: "\<forall>package version descr d raw.
      map_of [(''foo-1.0'', example_no_info)] (package @ ''-'' @ version) = Some d \<and>
      \<not> (files d = [] \<and> \<not> info_nonempty (info d)) \<and>
      select_source_uri d \<noteq> [] \<and> raw_license (info d) = Inr raw \<and>
      raw_py_versions (info d) = [] \<longrightarrow>
      (\<exists>p e. process_entry (\<lambda>x. x) ''20150307'' [(''foo-1.0'', example_no_info)]
                ((package, version), descr) = ([raw], Emitted p e) \<and>
             python_compat e = ''( python{2_7,3_3,3_4,3_5} )'') \<and>
      (\<exists>p e. added (process_data (\<lambda>x. x) (2015, 3, 7) [(''foo-1.0'', example_no_info)]
                 [((package, version), descr)]) = [(p, e)] \<and>
             python_compat e = ''( python{2_7,3_3,3_4,3_5} )'')"
    using compat_has_runtime_tag [of "\<lambda>x. x" 2015 3 7 "[(''foo-1.0'', example_no_info)]" "[]"
        "''20150307''"] by blast
  from new h have 1:
    "(\<exists>p e. process_entry (\<lambda>x. x) ''20150307'' [(''foo-1.0'', example_no_info)]
             ((''foo'', ''1.0''), []) = ([[]], Emitted p e) \<and>
          python_compat e = ''( python{2_7,3_3,3_4,3_5} )'') \<and>
     (\<exists>p e. added (process_data (\<lambda>x. x) (2015, 3, 7) [(''foo-1.0'', example_no_info)]
             [((''foo'', ''1.0''), [])]) = [(p, e)] \<and>
          python_compat e = ''( python{2_7,3_3,3_4,3_5} )'')"
    by blast
  let ?run = "added (process_data (\<lambda>x. x) (2015, 3, 7) example_packages example_index)"
  have ne: "?run \<noteq> []" by (simp add: example_run)
  then have mem: "(fst (hd ?run), snd (hd ?run)) \<in> set ?run" by simp
  have rn: "realname (snd (hd ?run)) = ''foo''" and rv: "realversion (snd (hd ?run)) = ''1.2.3''"
    and pc: "python_compat (snd (hd ?run)) = ''( python{2_7,2_7} )''"
    by (simp_all add: example_run)
  from compat_has_runtime_tag [of "\<lambda>x. x" 2015 3 7 example_packages example_index
      "''20150307''"] mem
  obtain d tags where
    "map_of example_packages (realname (snd (hd ?run)) @ ''-'' @ realversion (snd (hd ?run)))
       = Some d"
    "tags = with_default (raw_py_versions (info d))" "tags \<noteq> []"
    "render_compat tags = Inr (python_compat (snd (hd ?run)))"
    by blast
  with rn rv pc have 2: "\<exists>d tags. map_of example_packages (''foo'' @ ''-'' @ ''1.2.3'') = Some d \<and>
      tags = with_default (raw_py_versions (info d)) \<and> tags \<noteq> [] \<and>
      render_compat tags = Inr ''( python{2_7,2_7} )''" by auto
  from 1 2 show ?thesis by blast
qed

text \<open>
  Claim C9. The tags are collected in a list, by appending: the tags of a concatenation
  of entries are the concatenation of their tags, with no duplicate removed. The entries
  \<open>"2"\<close> and \<open>"2.7"\<close> both map to \<open>2_7\<close>, the list for \<open>["2", "2.7"]\<close> holds the tag twice,
  and so does the rendered expression, also in the records of the example run.
\<close>

theorem duplicate_runtime_tags:
  "py_versions_of (es1 @ es2) = py_versions_of es1 @ py_versions_of es2 \<and>
   py_versions_of es = concat (map tags_of_entry es) \<and>
   tags_of_entry ''2'' = [''2_7''] \<and> tags_of_entry ''2.7'' = [''2_7''] \<and>
   py_versions_of [''2'', ''2.7''] = [''2_7'', ''2_7''] \<and>
   render_compat (with_default (py_versions_of [''2'', ''2.7''])) = Inr ''( python{2_7,2_7} )'' \<and>
   map (\<lambda>(p, e). python_compat e)
     (added (process_data (\<lambda>x. x) (2015, 3, 7) example_packages example_index))
     = [''( python{2_7,2_7} )'', ''( python{2_7,2_7} )'']"
proof (intro conjI)
  show "py_versions_of (es1 @ es2) = py_versions_of es1 @ py_versions_of es2"
    by (simp add: py_versions_of_concat)
  show "py_versions_of es = concat (map tags_of_entry es)" by (rule py_versions_of_concat)
  show "tags_of_entry ''2'' = [''2_7'']" by (simp add: tags_of_entry_def)
  show "tags_of_entry ''2.7'' = [''2_7'']" by (simp add: tags_of_entry_def)
  show "py_versions_of [''2'', ''2.7''] = [''2_7'', ''2_7'']" by code_simp
  show "render_compat (with_default (py_versions_of [''2'', ''2.7'']))
          = Inr ''( python{2_7,2_7} )''" by code_simp
  show "map (\<lambda>(p, e). python_compat e)
     (added (process_data (\<lambda>x. x) (2015, 3, 7) example_packages example_index))
     = [''( python{2_7,2_7} )'', ''( python{2_7,2_7} )'']" by (simp add: example_run)
qed

lemma bare_license_parsed:
  "parse_package_page bare_license_page =
     \<lparr>files = [\<lparr>f_url = ''https://pypi.example/p/foo-1.0.tar.gz'', f_md5 = ''bb22'',
                 f_type = Some source_marker, f_pyversion = Some ''2.7'',
                 f_uploaded = Some ''2015-03-07'', f_size = Some ''12KB''\<rparr>],
      info = \<lparr>scalars = [(''Home Page:'', Some ''http://foo.example/'')],
              categories = Some [(''License'', [])]\<rparr>\<rparr>"
  by code_simp

text \<open>
  Claim C10 at a failing input. The page has a source file, so the entry has a
  \<open>source_uri\<close> and is not skipped; its \<open>Categories\<close> item has one link, with the text
  \<open>License\<close>, for which the page parser stores the group \<open>License\<close> with no value.
  \<open>categories["License"][-1]\<close> raises \<open>IndexError\<close> before the lookup is called: the
  lookup is called zero times, no record is added and the run ends with the exception.
\<close>

theorem license_lookup_empty_group:
  "parse_package_page bare_license_page =
     \<lparr>files = [\<lparr>f_url = ''https://pypi.example/p/foo-1.0.tar.gz'', f_md5 = ''bb22'',
                 f_type = Some source_marker, f_pyversion = Some ''2.7'',
                 f_uploaded = Some ''2015-03-07'', f_size = Some ''12KB''\<rparr>],
      info = \<lparr>scalars = [(''Home Page:'', Some ''http://foo.example/'')],
              categories = Some [(''License'', [])]\<rparr>\<rparr> \<and>
   select_source_uri (parse_package_page bare_license_page)
     = ''https://pypi.example/p/foo-1.0.tar.gz'' \<and>
   process_entry convert pv [(''foo-1.0'', parse_package_page bare_license_page)]
       ((''foo'', ''1.0''), [])
     = ([], Raised IndexError) \<and>
   process_data convert (2015, 3, 7) [(''foo-1.0'', parse_package_page bare_license_page)]
      [((''foo'', ''1.0''), [])]
     = \<lparr>added = [], convert_calls = [], raised = Some IndexError\<rparr>"
proof -
  let ?d = "parse_package_page bare_license_page"
  have s: "select_source_uri ?d = ''https://pypi.example/p/foo-1.0.tar.gz''"
    by (simp add: bare_license_parsed select_source_uri_def download_url_of_def
        info_nonempty_def)
  have r: "raw_license (info ?d) = Inl IndexError"
    by (simp add: bare_license_parsed raw_license_def categories_of_def info_nonempty_def)
  have f: "files ?d \<noteq> []" by (simp add: bare_license_parsed)
  have e: "process_entry convert pv [(''foo-1.0'', ?d)] ((''foo'', ''1.0''), [])
     = ([], Raised IndexError)" for pv
    using s r f by (simp add: process_entry_def Let_def)
  then show ?thesis using s bare_license_parsed by (simp add: process_data_def)
qed

text \<open>
  For every other entry that has a \<open>source_uri\<close> (its \<open>License\<close> group is absent or holds
  a value), the lookup is called exactly once, with the last value of the group, or
  with the empty string when there is no group or no info.
\<close>

lemma license_lookup_once:
  assumes "map_of packages (package @ ''-'' @ version) = Some d"
    and "\<not> (files d = [] \<and> \<not> info_nonempty (info d))"
    and "select_source_uri d \<noteq> []"
    and "map_of (categories_of (info d)) ''License'' \<noteq> Some []"
  shows "fst (process_entry convert pv packages ((package, version), descr)) =
           [case map_of (categories_of (info d)) ''License'' of None \<Rightarrow> [] | Some ls \<Rightarrow> last ls]"
proof -
  have "render_compat (with_default (raw_py_versions (info d))) \<noteq> Inl err" for err
    using with_default_nonempty [of "raw_py_versions (info d)"]
    by (cases "with_default (raw_py_versions (info d))" rule: render_compat.cases) simp_all
  then obtain r where "render_compat (with_default (raw_py_versions (info d))) = Inr r"
    by (cases "render_compat (with_default (raw_py_versions (info d)))") auto
  with assms show ?thesis
    by (auto simp: process_entry_def Let_def raw_license_def split: option.splits)
qed

text \<open>With a source file and no info, the lookup is called once, with the empty string.\<close>

lemma license_lookup_no_info:
  "fst (process_entry convert pv [(''foo-1.0'', example_no_info)] ((''foo'', ''1.0''), []))
     = [[]]"
proof -
  have "map_of [(''foo-1.0'', example_no_info)] (''foo'' @ ''-'' @ ''1.0'') = Some example_no_info"
    by simp
  moreover have "\<not> (files example_no_info = [] \<and> \<not> info_nonempty (info example_no_info))"
    by (simp add: example_no_info_def)
  moreover have "select_source_uri example_no_info \<noteq> []"
    by (simp add: select_source_uri_def example_no_info_def example_sdist_def empty_info_def
        download_url_of_def info_nonempty_def)
  moreover have "map_of (categories_of (info example_no_info)) ''License'' \<noteq> Some []"
    by (simp add: categories_of_def example_no_info_def empty_info_def info_nonempty_def)
  ultimately have "fst (process_entry convert pv [(''foo-1.0'', example_no_info)]
      ((''foo'', ''1.0''), [])) =
      [case map_of (categories_of (info example_no_info)) ''License'' of
         None \<Rightarrow> [] | Some ls \<Rightarrow> last ls]"
    by (rule license_lookup_once)
  then show ?thesis
    by (simp add: categories_of_def example_no_info_def empty_info_def info_nonempty_def)
qed

section \<open>Properties of the worker\<close>

lemma attempt_loop_all_fail:
  assumes "\<forall>k. a < k \<and> k \<le> 100 \<longrightarrow> (\<exists>m. load k = Inl (DownloadingError m))"
    and "a < 100"
  shows "\<exists>st'. attempt_loop load a st = Inr (100, st') \<and>
           tasks_done st' = tasks_done st + 1 \<and> results st' = results st \<and>
           local_data st' = local_data st \<and>
           length (printed st') = length (printed st) + (100 - a)"
  using assms
proof (induction "100 - a" arbitrary: a st)
  case 0
  then show ?case by simp
next
  case (Suc n)
  from Suc.prems obtain m where m: "load (a + 1) = Inl (DownloadingError m)"
    by (metis Suc_eq_plus1 Suc_leI lessI)
  show ?case
  proof (cases "a + 1 < 100")
    case True
    let ?st = "st\<lparr>printed := printed st @ [m]\<rparr>"
    have "n = 100 - (a + 1)" using Suc.hyps(2) by simp
    moreover have "\<forall>k. a + 1 < k \<and> k \<le> 100 \<longrightarrow> (\<exists>m. load k = Inl (DownloadingError m))"
      using Suc.prems(1) by simp
    ultimately obtain st' where
      "attempt_loop load (a + 1) ?st = Inr (100, st')"
      "tasks_done st' = tasks_done ?st + 1" "results st' = results ?st"
      "local_data st' = local_data ?st"
      "length (printed st') = length (printed ?st) + (100 - (a + 1))"
      using Suc.hyps(1) [of "a + 1" ?st] True by blast
    with m True show ?thesis
      by (subst attempt_loop.simps) simp
  next
    case False
    with Suc.prems(2) have "a + 1 = 100" by simp
    with m show ?thesis
      by (subst attempt_loop.simps) simp
  qed
qed

lemma attempt_loop_success:
  assumes "a < n" and "n \<le> 100"
    and "\<forall>k. a < k \<and> k < n \<longrightarrow> (\<exists>m. load k = Inl (DownloadingError m))"
    and "load n = Inr d"
  shows "\<exists>st'. attempt_loop load a st = Inr (n, st') \<and>
           tasks_done st' = tasks_done st + 1 \<and> results st' = results st @ [d] \<and>
           local_data st' = Some d \<and>
           length (printed st') = length (printed st) + (n - a - 1) + length d"
  using assms
proof (induction "n - a" arbitrary: a st)
  case 0
  then show ?case by simp
next
  case (Suc j)
  show ?case
  proof (cases "a + 1 = n")
    case True
    with Suc.prems(4) show ?thesis
      by (subst attempt_loop.simps) simp
  next
    case False
    with Suc.prems have lt: "a + 1 < n" by simp
    with Suc.prems obtain m where m: "load (a + 1) = Inl (DownloadingError m)"
      by (metis Suc_eq_plus1 lessI)
    let ?st = "st\<lparr>printed := printed st @ [m]\<rparr>"
    have "j = n - (a + 1)" using Suc.hyps(2) by simp
    moreover have "\<forall>k. a + 1 < k \<and> k < n \<longrightarrow> (\<exists>m. load k = Inl (DownloadingError m))"
      using Suc.prems(3) by simp
    ultimately obtain st' where
      "attempt_loop load (a + 1) ?st = Inr (n, st')"
      "tasks_done st' = tasks_done ?st + 1" "results st' = results ?st @ [d]"
      "local_data st' = Some d"
      "length (printed st') = length (printed ?st) + (n - (a + 1) - 1) + length d"
      using Suc.hyps(1) [of "a + 1" ?st] lt Suc.prems(2,4) by blast
    moreover from lt Suc.prems(2) have "a + 1 < 100" by simp
    ultimately show ?thesis using m lt
      by (subst attempt_loop.simps) simp
  qed
qed

text \<open>
  Claim C1. When every one of the first 100 downloads of a job raises
  \<open>DownloadingError\<close>, the retry loop ends with the attempt counter at exactly 100, the
  job marked done once, 100 errors printed and nothing put on the result queue. When
  the \<open>n\<close>-th download succeeds, for some \<open>n\<close> from 1 to 100, and every download before
  it raises \<open>DownloadingError\<close>, the loop ends after exactly \<open>n\<close> attempts, with the job
  marked done once and the loaded data put on the result queue.
\<close>

theorem worker_retry:
  "((\<forall>k. 1 \<le> k \<and> k \<le> 100 \<longrightarrow> (\<exists>m. load k = Inl (DownloadingError m))) \<longrightarrow>
      (\<exists>st'. attempt_loop load 0 st = Inr (100, st') \<and>
         tasks_done st' = tasks_done st + 1 \<and> results st' = results st \<and>
         length (printed st') = length (printed st) + 100)) \<and>
   (\<forall>n d. 1 \<le> n \<and> n \<le> 100 \<and>
       (\<forall>k. 1 \<le> k \<and> k < n \<longrightarrow> (\<exists>m. load k = Inl (DownloadingError m))) \<and>
       load n = Inr d \<longrightarrow>
      (\<exists>st'. attempt_loop load 0 st = Inr (n, st') \<and>
         tasks_done st' = tasks_done st + 1 \<and> results st' = results st @ [d]))"
proof (intro conjI allI impI)
  assume "\<forall>k. 1 \<le> k \<and> k \<le> 100 \<longrightarrow> (\<exists>m. load k = Inl (DownloadingError m))"
  then have "\<forall>k. 0 < k \<and> k \<le> 100 \<longrightarrow> (\<exists>m. load k = Inl (DownloadingError m))"
    by (simp add: Suc_le_eq)
  from attempt_loop_all_fail [OF this, of st]
  show "\<exists>st'. attempt_loop load 0 st = Inr (100, st') \<and>
         tasks_done st' = tasks_done st + 1 \<and> results st' = results st \<and>
         length (printed st') = length (printed st) + 100" by auto
next
  fix n d
  assume a: "1 \<le> n \<and> n \<le> 100 \<and>
       (\<forall>k. 1 \<le> k \<and> k < n \<longrightarrow> (\<exists>m. load k = Inl (DownloadingError m))) \<and>
       load n = Inr d"
  then have "0 < n" "n \<le> 100" "load n = Inr d"
    "\<forall>k. 0 < k \<and> k < n \<longrightarrow> (\<exists>m. load k = Inl (DownloadingError m))"
    by (simp_all add: Suc_le_eq)
  from attempt_loop_success [OF this(1,2,4,3), of st]
  show "\<exists>st'. attempt_loop load 0 st = Inr (n, st') \<and>
         tasks_done st' = tasks_done st + 1 \<and> results st' = results st @ [d]" by auto
qed

text \<open>The theorem at the two example downloads.\<close>

theorem worker_retry_witness:
  "(\<exists>st'. attempt_loop always_failing 0 fresh_worker = Inr (100, st') \<and>
      tasks_done st' = 1 \<and> results st' = [] \<and> length (printed st') = 100) \<and>
   (\<exists>st'. attempt_loop third_time_lucky 0 fresh_worker = Inr (3, st') \<and>
      tasks_done st' = 1 \<and> results st' = [[(''foo-1.0'', 7)]])"
proof -
  have f: "\<forall>k. 1 \<le> k \<and> k \<le> 100 \<longrightarrow> (\<exists>m. always_failing k = Inl (DownloadingError m))"
    by (simp add: always_failing_def)
  have s: "1 \<le> (3::nat) \<and> (3::nat) \<le> 100 \<and>
       (\<forall>k. 1 \<le> k \<and> k < 3 \<longrightarrow> (\<exists>m. third_time_lucky k = Inl (DownloadingError m))) \<and>
       third_time_lucky 3 = Inr [(''foo-1.0'', 7)]"
    by (simp add: third_time_lucky_def)
  from worker_retry [of always_failing fresh_worker] f
  have 1: "\<exists>st'. attempt_loop always_failing 0 fresh_worker = Inr (100, st') \<and>
      tasks_done st' = tasks_done fresh_worker + 1 \<and> results st' = results fresh_worker \<and>
      length (printed st') = length (printed fresh_worker) + 100" by blast
  from worker_retry [of third_time_lucky fresh_worker] s
  have 2: "\<exists>st'. attempt_loop third_time_lucky 0 fresh_worker = Inr (3, st') \<and>
      tasks_done st' = tasks_done fresh_worker + 1 \<and>
      results st' = results fresh_worker @ [[(''foo-1.0'', 7)]]" by blast
  from 1 2 show ?thesis by (simp add: fresh_worker_def)
qed

section \<open>Properties of the loader\<close>

text \<open>
  Claim C8 at a failing input. For a download that is a tar archive, whatever its
  members, \<open>load_remote_file\<close> extracts the archive and then raises \<open>AttributeError\<close> at
  \<open>os.path.join(unpack_dir, "*")\<close>: no member is parsed and no pair is returned. The
  exception is not a \<open>DownloadingError\<close>, so the retry loop of the worker does not catch
  it.
\<close>

theorem tar_payload_raises:
  "load_remote_file uri download_name unpack_name (Inr True)
     [(''foo-1.0'', TarArchive members)] xz parser = Inl AttributeError \<and>
   load_remote_file ''http://pypi.example/pypi/foo/1.0'' ''/tmp/tmpA'' ''/tmp/tmpB'' (Inr True)
     [(''foo-1.0'', TarArchive [(''PKG-INFO'', ''Name: foo''), (''setup.py'', ''import os'')])]
     (\<lambda>cmd c. (0, Some c)) (\<lambda>c. length c) = Inl AttributeError"
  by (simp add: load_remote_file_def glob_star_def load_one_def)

text \<open>
  The other half of the claim holds: for a file that is not an archive and whose name
  ends in \<open>.xz\<close> or \<open>.lzma\<close>, the command \<open>xz -d\<close> is run on the name; a status other than
  zero raises \<open>DownloadingError\<close>, and with the status zero the content then found under
  the name without the extension is parsed. Any other file is parsed as it is.
\<close>

lemma compressed_payload:
  "load_remote_file uri ''/tmp/tmpA'' unpack_name (Inr True)
     [(''foo-1.0.xz'', PlainFile c)] xz parser =
     (case xz ''xz -d /tmp/tmpA/foo-1.0.xz'' c of
        (status, after) \<Rightarrow>
          if status \<noteq> 0 then
            Inl (DownloadingError (''xz failed: /tmp/tmpA/foo-1.0.xz from '' @ uri))
          else (case after of None \<Rightarrow> Inl IOError | Some c' \<Rightarrow> Inr [(''foo-1.0'', parser c')]))"
  "load_remote_file uri ''/tmp/tmpA'' unpack_name (Inr True)
     [(''foo-1.0.lzma'', PlainFile c)] xz parser =
     (case xz ''xz -d /tmp/tmpA/foo-1.0.lzma'' c of
        (status, after) \<Rightarrow>
          if status \<noteq> 0 then
            Inl (DownloadingError (''xz failed: /tmp/tmpA/foo-1.0.lzma from '' @ uri))
          else (case after of None \<Rightarrow> Inl IOError | Some c' \<Rightarrow> Inr [(''foo-1.0'', parser c')]))"
  "load_remote_file uri ''/tmp/tmpA'' unpack_name (Inr True)
     [(''foo-1.0'', PlainFile c)] xz parser = Inr [(''foo-1.0'', parser c)]"
  by (simp_all add: load_remote_file_def glob_star_def load_one_def splitext_def basename_def
      call_parser_def split: option.splits prod.splits)

section \<open>Properties of the detail-page parser\<close>

lemma split_from_nonempty: "split_from sep cur s \<noteq> []"
  by (induction sep cur s rule: split_from.induct) simp_all

lemma add_categories_append:
  "add_categories (xs @ ys) cats =
     (case add_categories xs cats of Inl err \<Rightarrow> Inl err | Inr c \<Rightarrow> add_categories ys c)"
  by (induction xs cats rule: add_categories.induct)
     (simp_all split: option.splits list.splits)

lemma add_categories_last:
  assumes "add_categories anchors cats = Inr cats1"
    and "node_string a = Some s" and "py_split '' :: '' s = g # vs"
  shows "add_categories (anchors @ [a]) cats =
           Inr (case map_of cats1 g of
                  None \<Rightarrow> AList.update g vs cats1
                | Some old \<Rightarrow> AList.update g (old @ vs) cats1)"
  using assms by (simp add: add_categories_append)







text \<open>
  The hypotheses about a row hold at the example page whose table has a well-formed
  row and then a row with no link.
\<close>

lemma half_broken_row:
  "find_all_class ''table'' ''list'' half_broken_page \<noteq> [] \<and>
   item (find_all ''th'' (last (find_all_class ''table'' ''list'' half_broken_page))) 0
     = Inr (Tag ''th'' [] [] [Text ''File'']) \<and>
   node_string (Tag ''th'' [] [] [Text ''File'']) = Some ''File'' \<and>
   is_substring ''File'' ''File'' \<and>
   broken_row \<in> set (butlast (drop 1
      (find_all ''tr'' (last (find_all_class ''table'' ''list'' half_broken_page))))) \<and>
   row_record (find_all ''td'' broken_row) = Inl IndexError"
  by code_simp


text \<open>
  Claim C6, as stated, does not hold: on a page with two \<open>Categories\<close> items, the first
  with the group \<open>License\<close> and the value \<open>GPL-2\<close>, the second with the group \<open>License\<close> and
  the value \<open>MIT\<close>, the result is not \<open>{"License": ["GPL-2", "MIT"]}\<close> but
  \<open>{"License": ["MIT"]}\<close>: the second item starts again from an empty dictionary.
\<close>

theorem category_reset_counterexample:
  "categories (info (parse_package_page page_two_items))
     \<noteq> Some [(''License'', [''GPL-2'', ''MIT''])] \<and>
   categories (info (parse_package_page page_two_items)) = Some [(''License'', [''MIT''])]"
  by code_simp

text \<open>
  Claim C6, amended. Within one \<open>Categories\<close> item the accumulation is an
  order-preserving append: an item with the links \<open>License :: GPL-2\<close> and
  \<open>License :: MIT\<close> yields \<open>{"License": ["GPL-2", "MIT"]}\<close>; a further link of a group
  appends its values to the list the group has (a new group starts with them) and
  leaves the other groups as they are. Each \<open>Categories\<close> item replaces the dictionary
  stored before it by the one built from its own links.
\<close>

theorem category_accumulation:
  "categories (info (parse_package_page page_one_item))
     = Some [(''License'', [''GPL-2'', ''MIT''])] \<and>
   (\<forall>anchors a cats cats1 s g vs.
      add_categories anchors cats = Inr cats1 \<and> node_string a = Some s \<and>
      py_split '' :: '' s = g # vs \<longrightarrow>
      (\<exists>cats2. add_categories (anchors @ [a]) cats = Inr cats2 \<and>
         map_of cats2 g = Some ((case map_of cats1 g of None \<Rightarrow> [] | Some old \<Rightarrow> old) @ vs) \<and>
         (\<forall>h. h \<noteq> g \<longrightarrow> map_of cats2 h = map_of cats1 h))) \<and>
   (\<forall>entry label cats info0.
      is_tag ''li'' entry \<and> item (find_all ''strong'' entry) 0 = Inr label \<and>
      node_string label = Some ''Categories'' \<and>
      add_categories (find_all ''a'' entry) [] = Inr cats \<longrightarrow>
      item_step entry info0 = Inr (info0\<lparr>categories := Some cats\<rparr>, False))"
proof (intro conjI allI impI)
  show "categories (info (parse_package_page page_one_item))
     = Some [(''License'', [''GPL-2'', ''MIT''])]" by code_simp
next
  fix anchors a cats cats1 s g vs
  assume "add_categories anchors cats = Inr cats1 \<and> node_string a = Some s \<and>
      py_split '' :: '' s = g # vs"
  then have "add_categories (anchors @ [a]) cats =
           Inr (case map_of cats1 g of
                  None \<Rightarrow> AList.update g vs cats1
                | Some old \<Rightarrow> AList.update g (old @ vs) cats1)"
    by (simp add: add_categories_last)
  then show "\<exists>cats2. add_categories (anchors @ [a]) cats = Inr cats2 \<and>
         map_of cats2 g = Some ((case map_of cats1 g of None \<Rightarrow> [] | Some old \<Rightarrow> old) @ vs) \<and>
         (\<forall>h. h \<noteq> g \<longrightarrow> map_of cats2 h = map_of cats1 h)"
    by (cases "map_of cats1 g") (simp_all add: update_conv')
next
  fix entry label cats info0
  assume "is_tag ''li'' entry \<and> item (find_all ''strong'' entry) 0 = Inr label \<and>
      node_string label = Some ''Categories'' \<and>
      add_categories (find_all ''a'' entry) [] = Inr cats"
  then show "item_step entry info0 = Inr (info0\<lparr>categories := Some cats\<rparr>, False)"
    by (simp add: item_step_def)
qed

text \<open>
  The theorem at the two links of the example, and at a second \<open>Categories\<close> item that
  comes after a first one.
\<close>

theorem category_accumulation_witness:
  "(\<exists>cats2. add_categories
       [category_link ''License :: GPL-2'', category_link ''License :: MIT''] [] = Inr cats2 \<and>
     map_of cats2 ''License'' = Some [''GPL-2'', ''MIT'']) \<and>
   item_step (categories_item [''License :: MIT''])
       \<lparr>scalars = [], categories = Some [(''License'', [''GPL-2''])]\<rparr>
     = Inr (\<lparr>scalars = [], categories = Some [(''License'', [''MIT''])]\<rparr>, False)"
proof -
  have a1: "add_categories [category_link ''License :: GPL-2''] [] = Inr [(''License'', [''GPL-2''])]"
    by code_simp
  have a2: "node_string (category_link ''License :: MIT'') = Some ''License :: MIT''"
    by (simp add: category_link_def)
  have a3: "py_split '' :: '' ''License :: MIT'' = ''License'' # [''MIT'']" by code_simp
  have step: "\<forall>anchors a cats cats1 s g vs.
      add_categories anchors cats = Inr cats1 \<and> node_string a = Some s \<and>
      py_split '' :: '' s = g # vs \<longrightarrow>
      (\<exists>cats2. add_categories (anchors @ [a]) cats = Inr cats2 \<and>
         map_of cats2 g = Some ((case map_of cats1 g of None \<Rightarrow> [] | Some old \<Rightarrow> old) @ vs) \<and>
         (\<forall>h. h \<noteq> g \<longrightarrow> map_of cats2 h = map_of cats1 h))"
    using category_accumulation by blast
  from step a1 a2 a3 have
    "\<exists>cats2. add_categories ([category_link ''License :: GPL-2''] @
         [category_link ''License :: MIT'']) [] = Inr cats2 \<and>
       map_of cats2 ''License'' =
         Some ((case map_of [(''License'', [''GPL-2''])] ''License'' of
                  None \<Rightarrow> [] | Some old \<Rightarrow> old) @ [''MIT''])"
    by blast
  then have 1: "\<exists>cats2. add_categories
       [category_link ''License :: GPL-2'', category_link ''License :: MIT''] [] = Inr cats2 \<and>
     map_of cats2 ''License'' = Some [''GPL-2'', ''MIT'']" by simp
  have 2: "item_step (categories_item [''License :: MIT''])
       \<lparr>scalars = [], categories = Some [(''License'', [''GPL-2''])]\<rparr>
     = Inr (\<lparr>scalars = [], categories = Some [(''License'', [''MIT''])]\<rparr>, False)"
    by code_simp
  from 1 2 show ?thesis by blast
qed

end
